theory Spec2Isabelle
  imports Main "HOL-Library.Sublist"
begin

section \<open>The builder assembly engine of pack: data model\<close>

text \<open>
  A shallow embedding of package \<open>builder\<close>: the order resolver
  (\<open>processOrder\<close>), the graph validator (\<open>validateBuildpacks\<close>), the lifecycle
  descriptor validator (\<open>NewLifecycle\<close>, \<open>validateBinaries\<close>), the layer composer
  and \<open>Builder.Save\<close>. Go strings are byte strings (\<open>string\<close>), slices are lists,
  a returned \<open>error\<close> is a value of the datatype \<open>error\<close>, and \<open>nil\<close> is \<open>None\<close>.
\<close>

subsection \<open>Errors\<close>

text \<open>
  One constructor per \<open>fmt.Errorf\<close> message of the sources, carrying the values
  the message formats. \<open>Wrap e msg\<close> is \<open>errors.Wrap(e, msg)\<close>; \<open>External msg\<close>
  is a failure handed back by a collaborator outside the package (the image, the
  file system, an encoder); \<open>ErrEntryNotExist\<close> is \<open>archive.ErrEntryNotExist\<close>.
\<close>

datatype error =
    NoVersionsFound string
  | MultipleVersions string
  | VersionNotFound string string
  | NeitherStacksNorOrder string
  | BothStacksAndOrder string
  | StackNotSupported string string
  | BuildpackNotFound string
  | BinaryNotFound string
  | CreateFileForTar error
  | ErrEntryNotExist
  | External string
  | Wrap error string

text \<open>\<open>errors.Cause\<close>: the innermost error under the wrappers.\<close>

fun Cause :: "error \<Rightarrow> error" where
  "Cause (Wrap e msg) = Cause e"
| "Cause e = e"

subsection \<open>Orders and buildpack identities\<close>

text \<open>
  \<open>BuildpackInfo\<close> is the pair of the fields \<open>ID\<close> and \<open>Version\<close> the code reads
  of it. \<open>BuildpackRef\<close> embeds it and adds \<open>Optional\<close>: a record extension.
\<close>

record BuildpackInfo =
  ID :: string
  Version :: string

record BuildpackRef = BuildpackInfo +
  Optional :: bool

text \<open>
  Modelled from the spec: the type \<open>BuildpackMetadata\<close> is declared in a file of
  the package that is not at hand. The data model gives it as the identity pair
  (id, version) of a buildpack known to the builder; the code reads \<open>bp.ID\<close> and
  the embedded \<open>bp.BuildpackInfo\<close> of it and makes one from a \<open>BuildpackInfo\<close>
  alone, which leaves any other field at its zero value. The package declares one
  other field, the mark \<open>Latest\<close>, which only \<open>symlinkLatest\<close> and
  \<open>processMetadata\<close> look at; the data model does not mention it.
\<close>

record BuildpackMetadata = BuildpackInfo +
  Latest :: bool

text \<open>The embedded struct \<open>bp.BuildpackInfo\<close> of a value that embeds one.\<close>

definition embeddedInfo :: "'a BuildpackInfo_scheme \<Rightarrow> BuildpackInfo" where
  "embeddedInfo bp = \<lparr>ID = ID bp, Version = Version bp\<rparr>"

record OrderEntry =
  Group :: "BuildpackRef list"

type_synonym Order = "OrderEntry list"

section \<open>Order resolution: processOrder\<close>

text \<open>The inner loop of \<open>processOrder\<close>: the known buildpacks with the ref's id.\<close>

fun matchingBps :: "BuildpackMetadata list \<Rightarrow> string \<Rightarrow> BuildpackInfo list" where
  "matchingBps [] rid = []"
| "matchingBps (bp # buildpacks) rid =
     (if rid = ID bp then embeddedInfo bp # matchingBps buildpacks rid
      else matchingBps buildpacks rid)"

fun hasBuildpackWithVersion :: "BuildpackInfo list \<Rightarrow> string \<Rightarrow> bool" where
  "hasBuildpackWithVersion [] version = False"
| "hasBuildpackWithVersion (bp # bps) version =
     (if Version bp = version then True else hasBuildpackWithVersion bps version)"

text \<open>
  The body of the loop over the refs of a group. \<open>bpRef\<close> points into the group's
  slice, so setting its version changes the order in place: the result is the ref
  as it stands afterwards.
\<close>

definition processRef :: "BuildpackMetadata list \<Rightarrow> BuildpackRef \<Rightarrow> error + BuildpackRef" where
  "processRef buildpacks bpRef =
     (let matching = matchingBps buildpacks (ID bpRef) in
      if length matching = 0 then Inl (NoVersionsFound (ID bpRef))
      else if Version bpRef = [] \<and> length matching > 1 then Inl (MultipleVersions (ID bpRef))
      else
        (let bpRef' = (if Version bpRef = [] then bpRef\<lparr>Version := Version (hd matching)\<rparr> else bpRef) in
         if \<not> hasBuildpackWithVersion matching (Version bpRef')
         then Inl (VersionNotFound (ID bpRef') (Version bpRef'))
         else Inr bpRef'))"

text \<open>
  The two loops. The order is changed in place, so a call that fails leaves the
  refs it resolved before the failure resolved: both the order as it stands and
  the returned error are results.
\<close>

fun processGroup :: "BuildpackMetadata list \<Rightarrow> BuildpackRef list \<Rightarrow> BuildpackRef list \<times> error option" where
  "processGroup buildpacks [] = ([], None)"
| "processGroup buildpacks (r # rs) =
     (case processRef buildpacks r of
        Inl e \<Rightarrow> (r # rs, Some e)
      | Inr r' \<Rightarrow> (case processGroup buildpacks rs of (rs', res) \<Rightarrow> (r' # rs', res)))"

fun processOrder :: "BuildpackMetadata list \<Rightarrow> Order \<Rightarrow> Order \<times> error option" where
  "processOrder buildpacks [] = ([], None)"
| "processOrder buildpacks (g # gs) =
     (case processGroup buildpacks (Group g) of
        (grp', Some e) \<Rightarrow> (g\<lparr>Group := grp'\<rparr> # gs, Some e)
      | (grp', None) \<Rightarrow>
          (case processOrder buildpacks gs of (gs', res) \<Rightarrow> (g\<lparr>Group := grp'\<rparr> # gs', res)))"

text \<open>All refs of an order, in the sequence the two loops visit them.\<close>

definition refsOf :: "Order \<Rightarrow> BuildpackRef list" where
  "refsOf order = concat (map Group order)"

section \<open>Graph and stack validation: validateBuildpacks\<close>

text \<open>
  Modelled from the spec: the type \<open>Buildpack\<close> and its method \<open>SupportsStack\<close>
  are declared in a file of the package that is not at hand. The data model has a buildpack as
  its identity, its nested order, the stack identifiers it supports and a readable
  archive blob, and validation asks that the builder's stack id is among the
  supported ones. The blob is a type parameter here.
\<close>

record 'blob Buildpack =
  Info :: BuildpackInfo
  Order :: Order
  Stacks :: "string list"
  Blob :: 'blob

definition SupportsStack :: "'blob Buildpack \<Rightarrow> string \<Rightarrow> bool" where
  "SupportsStack bp stackID = (stackID \<in> set (Stacks bp))"

text \<open>The lookup key \<open>id + "@" + version\<close>.\<close>

definition idAtVersion :: "'a BuildpackInfo_scheme \<Rightarrow> string" where
  "idAtVersion i = ID i @ ''@'' @ Version i"

text \<open>The first loop: \<open>bpLookup[bp.Info.ID+"@"+bp.Info.Version] = nil\<close>.\<close>

fun buildLookup :: "'blob Buildpack list \<Rightarrow> (string \<rightharpoonup> unit) \<Rightarrow> (string \<rightharpoonup> unit)" where
  "buildLookup [] bpLookup = bpLookup"
| "buildLookup (bp # bps) bpLookup = buildLookup bps (bpLookup(idAtVersion (Info bp) \<mapsto> ()))"

text \<open>The loops over the groups of a nested order and over the refs of a group.\<close>

fun checkGroup :: "(string \<rightharpoonup> unit) \<Rightarrow> BuildpackRef list \<Rightarrow> error option" where
  "checkGroup bpLookup [] = None"
| "checkGroup bpLookup (r # rs) =
     (case bpLookup (idAtVersion r) of
        None \<Rightarrow> Some (BuildpackNotFound (idAtVersion r))
      | Some u \<Rightarrow> checkGroup bpLookup rs)"

fun checkOrder :: "(string \<rightharpoonup> unit) \<Rightarrow> Order \<Rightarrow> error option" where
  "checkOrder bpLookup [] = None"
| "checkOrder bpLookup (g # gs) =
     (case checkGroup bpLookup (Group g) of
        Some e \<Rightarrow> Some e
      | None \<Rightarrow> checkOrder bpLookup gs)"

text \<open>The body of the second loop, for one buildpack.\<close>

definition validateBuildpack :: "string \<Rightarrow> (string \<rightharpoonup> unit) \<Rightarrow> 'blob Buildpack \<Rightarrow> error option" where
  "validateBuildpack stackID bpLookup bp =
     (if length (Order bp) = 0 \<and> length (Stacks bp) = 0
      then Some (NeitherStacksNorOrder (idAtVersion (Info bp)))
      else if length (Order bp) \<ge> 1 \<and> length (Stacks bp) \<ge> 1
      then Some (BothStacksAndOrder (idAtVersion (Info bp)))
      else if length (Stacks bp) \<ge> 1 \<and> \<not> SupportsStack bp stackID
      then Some (StackNotSupported (idAtVersion (Info bp)) stackID)
      else checkOrder bpLookup (Order bp))"

fun validateLoop :: "string \<Rightarrow> (string \<rightharpoonup> unit) \<Rightarrow> 'blob Buildpack list \<Rightarrow> error option" where
  "validateLoop stackID bpLookup [] = None"
| "validateLoop stackID bpLookup (bp # bps) =
     (case validateBuildpack stackID bpLookup bp of
        Some e \<Rightarrow> Some e
      | None \<Rightarrow> validateLoop stackID bpLookup bps)"

definition validateBuildpacks :: "string \<Rightarrow> 'blob Buildpack list \<Rightarrow> error option" where
  "validateBuildpacks stackID bps = validateLoop stackID (buildLookup bps Map.empty) bps"

section \<open>Semantic versions\<close>

text \<open>
  \<open>semver.Version\<close> of the library Masterminds/semver, as far as the sources use
  it: the three numbers and the pre-release string (empty for a release). Every
  version the library parses has such a value; the numbers are not bounded here.
  \<open>Compare\<close> follows the library: the numbers first, then a release is greater
  than any of its pre-releases, then the pre-release strings, split at the dots
  and compared part by part with the empty string standing in for a missing part.
  A part is a number if \<open>strconv.ParseUint(part, 10, 64)\<close> accepts it: decimal
  digits only, at least one, and a value below \<open>2^64\<close>. Two numbers are compared
  as numbers, two other parts as byte strings, and a number is below a part that
  is not one.
\<close>

record semver =
  vmajor :: nat
  vminor :: nat
  vpatch :: nat
  vpre :: string

fun splitDot :: "string \<Rightarrow> string list" where
  "splitDot [] = [[]]"
| "splitDot (c # cs) =
     (if c = CHR ''.'' then [] # splitDot cs
      else (case splitDot cs of [] \<Rightarrow> [[c]] | p # ps \<Rightarrow> (c # p) # ps))"

definition isDigit :: "char \<Rightarrow> bool" where
  "isDigit c = (of_char (CHR ''0'') \<le> (of_char c :: int) \<and> (of_char c :: int) \<le> of_char (CHR ''9''))"

definition decimal :: "string \<Rightarrow> int" where
  "decimal s = foldl (\<lambda>n c. 10 * n + (of_char c - of_char (CHR ''0''))) 0 s"

definition ParseUint :: "string \<Rightarrow> int option" where
  "ParseUint s =
     (if s \<noteq> [] \<and> list_all isDigit s \<and> decimal s < 2 ^ 64 then Some (decimal s) else None)"

text \<open>\<open>s > o\<close> on Go strings: the byte strings in lexicographic order.\<close>

definition stringGreater :: "string \<Rightarrow> string \<Rightarrow> bool" where
  "stringGreater s o' = lexordp (\<lambda>c d. of_char c < (of_char d :: int)) o' s"

definition comparePrePart :: "string \<Rightarrow> string \<Rightarrow> int" where
  "comparePrePart s o' =
     (if s = o' then 0
      else if s = [] then -1
      else if o' = [] then 1
      else
        (case (ParseUint o', ParseUint s) of
           (None, None) \<Rightarrow> if stringGreater s o' then 1 else -1
         | (None, Some si) \<Rightarrow> -1
         | (Some oi, None) \<Rightarrow> 1
         | (Some oi, Some si) \<Rightarrow> if si > oi then 1 else -1))"

text \<open>The loop of \<open>comparePrerelease\<close> over the parts, up to the longer of the two lists.\<close>

fun comparePreParts :: "string list \<Rightarrow> string list \<Rightarrow> int" where
  "comparePreParts [] [] = 0"
| "comparePreParts [] (otemp # oparts) =
     (if comparePrePart [] otemp \<noteq> 0 then comparePrePart [] otemp else comparePreParts [] oparts)"
| "comparePreParts (stemp # sparts) [] =
     (if comparePrePart stemp [] \<noteq> 0 then comparePrePart stemp [] else comparePreParts sparts [])"
| "comparePreParts (stemp # sparts) (otemp # oparts) =
     (if comparePrePart stemp otemp \<noteq> 0 then comparePrePart stemp otemp
      else comparePreParts sparts oparts)"

definition comparePrerelease :: "string \<Rightarrow> string \<Rightarrow> int" where
  "comparePrerelease v o' = comparePreParts (splitDot v) (splitDot o')"

definition compareSegment :: "nat \<Rightarrow> nat \<Rightarrow> int" where
  "compareSegment v o' = (if v < o' then -1 else if v > o' then 1 else 0)"

definition Compare :: "semver \<Rightarrow> semver \<Rightarrow> int" where
  "Compare v o' =
     (if compareSegment (vmajor v) (vmajor o') \<noteq> 0 then compareSegment (vmajor v) (vmajor o')
      else if compareSegment (vminor v) (vminor o') \<noteq> 0 then compareSegment (vminor v) (vminor o')
      else if compareSegment (vpatch v) (vpatch o') \<noteq> 0 then compareSegment (vpatch v) (vpatch o')
      else if vpre v = [] \<and> vpre o' = [] then 0
      else if vpre v = [] then 1
      else if vpre o' = [] then -1
      else comparePrerelease (vpre v) (vpre o'))"

definition LessThan :: "semver \<Rightarrow> semver \<Rightarrow> bool" where
  "LessThan v o' = (Compare v o' < 0)"

text \<open>\<open>semver.MustParse("0.4.0")\<close> and \<open>semver.MustParse("0.3.0")\<close>.\<close>

definition v0_4_0 :: semver where
  "v0_4_0 = \<lparr>vmajor = 0, vminor = 4, vpatch = 0, vpre = []\<rparr>"

definition v0_3_0 :: semver where
  "v0_3_0 = \<lparr>vmajor = 0, vminor = 3, vpatch = 0, vpre = []\<rparr>"

section \<open>Archives, paths and blobs\<close>

text \<open>
  A tar header with the fields the sources read or write. \<open>Typeflag\<close> is a byte:
  \<open>tar.TypeDir\<close> is the character 5, \<open>tar.TypeSymlink\<close> the character 2, and a
  header literal that names no type has the zero byte. An instant (\<open>time.Time\<close>)
  is a number, the zero instant being 0.
\<close>

record Header =
  Typeflag :: char
  Name :: string
  Linkname :: string
  Size :: int
  Mode :: int
  Uid :: int
  Gid :: int
  ModTime :: nat

definition TypeDir :: char where
  "TypeDir = CHR ''5''"

definition TypeSymlink :: char where
  "TypeSymlink = CHR ''2''"

definition TypeZero :: char where
  "TypeZero = CHR 0x00"

text \<open>
  What a \<open>tar.Reader\<close> over an opened blob yields: the entries in sequence, each a
  header and what \<open>ioutil.ReadAll\<close> gives for its contents, and then either
  \<open>io.EOF\<close> (\<open>broken = None\<close>) or the error \<open>Next\<close> reports. A blob is the
  result of its \<open>Open\<close>, taken to be the same at every call: an error, with
  which the reader is nil, or the reader.
\<close>

record archive =
  entries :: "(Header \<times> (error + string)) list"
  broken :: "error option"

type_synonym Blob = "error + archive"

text \<open>
  \<open>path.Clean\<close> of the standard library: empty and \<open>.\<close> elements go, \<open>..\<close> takes
  the element before it away, or is dropped at the root, or stays in front of a
  relative path; the result of an empty path is \<open>.\<close>.
\<close>

fun splitSlash :: "string \<Rightarrow> string list" where
  "splitSlash [] = [[]]"
| "splitSlash (c # cs) =
     (if c = CHR ''/'' then [] # splitSlash cs
      else (case splitSlash cs of [] \<Rightarrow> [[c]] | w # ws \<Rightarrow> (c # w) # ws))"

fun joinSlash :: "string list \<Rightarrow> string" where
  "joinSlash [] = []"
| "joinSlash [w] = w"
| "joinSlash (w # ws) = w @ ''/'' @ joinSlash ws"

fun cleanElements :: "bool \<Rightarrow> string list \<Rightarrow> string list \<Rightarrow> string list" where
  "cleanElements rooted [] out = rev out"
| "cleanElements rooted (c # cs) out =
     (if c = [] \<or> c = ''.'' then cleanElements rooted cs out
      else if c = ''..'' then
        (case out of
           [] \<Rightarrow> if rooted then cleanElements rooted cs [] else cleanElements rooted cs [''..'']
         | w # ws \<Rightarrow> if w = ''..'' then cleanElements rooted cs (''..'' # w # ws)
                     else cleanElements rooted cs ws)
      else cleanElements rooted cs (c # out))"

definition Clean :: "string \<Rightarrow> string" where
  "Clean path =
     (case path of
        [] \<Rightarrow> ''.''
      | c # cs \<Rightarrow>
          (let rooted = (c = CHR ''/''); out = cleanElements rooted (splitSlash path) [] in
           if rooted then ''/'' @ joinSlash out
           else if out = [] then ''.'' else joinSlash out))"

text \<open>
  The regular expression \<open>^[^/]+/([^/]+)$\<close> of \<open>validateBinaries\<close> and
  \<open>embedLifecycleTar\<close>: \<open>FindStringSubmatch\<close> gives the part after the only
  slash when both parts are non-empty, and \<open>nil\<close> otherwise.
\<close>

definition pathMatches :: "string \<Rightarrow> string option" where
  "pathMatches p =
     (let dir = takeWhile (\<lambda>c. c \<noteq> CHR ''/'') p; rest = dropWhile (\<lambda>c. c \<noteq> CHR ''/'') p in
      case rest of
        [] \<Rightarrow> None
      | s # file \<Rightarrow> if dir \<noteq> [] \<and> file \<noteq> [] \<and> CHR ''/'' \<notin> set file then Some file else None)"

section \<open>The lifecycle descriptor validator\<close>

text \<open>
  The types of \<open>lifecycle.go\<close>. The version of a \<open>LifecycleInfo\<close> is a pointer:
  nil is \<open>None\<close>. Its field \<open>Version\<close> is \<open>LifecycleVersion\<close> here, the field
  \<open>Info\<close> of the descriptor is \<open>DInfo\<close> and the embedded \<open>Blob\<close> of a lifecycle
  is \<open>LBlob\<close>, since the buildpacks have fields of the same names.
\<close>

record LifecycleInfo =
  LifecycleVersion :: "semver option"

record LifecycleAPI =
  PlatformVersion :: string
  BuildpackVersion :: string

record LifecycleDescriptor =
  DInfo :: LifecycleInfo
  API :: LifecycleAPI

record lifecycle =
  descriptor :: LifecycleDescriptor
  LBlob :: Blob

definition defaultAPI :: string where
  "defaultAPI = ''0.1''"

definition DefaultLifecycleDescriptor :: LifecycleDescriptor where
  "DefaultLifecycleDescriptor =
     \<lparr>DInfo = \<lparr>LifecycleVersion = Some v0_3_0\<rparr>,
      API = \<lparr>PlatformVersion = defaultAPI, BuildpackVersion = defaultAPI\<rparr>\<rparr>"

definition lifecycleBinaries :: "string list" where
  "lifecycleBinaries =
     [''detector'', ''restorer'', ''analyzer'', ''builder'', ''exporter'', ''cacher'', ''launcher'']"

text \<open>The loop of \<open>validateBinaries\<close> over the entries: \<open>headers[pathMatches[1]] = true\<close>.\<close>

fun scanHeaders :: "(Header \<times> (error + string)) list \<Rightarrow> (string \<rightharpoonup> bool) \<Rightarrow> (string \<rightharpoonup> bool)" where
  "scanHeaders [] headers = headers"
| "scanHeaders ((header, contents) # es) headers =
     (case pathMatches (Clean (Name header)) of
        None \<Rightarrow> scanHeaders es headers
      | Some binary \<Rightarrow> scanHeaders es (headers(binary \<mapsto> True)))"

text \<open>The loop over \<open>lifecycleBinaries\<close>.\<close>

fun findMissing :: "(string \<rightharpoonup> bool) \<Rightarrow> string list \<Rightarrow> error option" where
  "findMissing headers [] = None"
| "findMissing headers (p # ps) =
     (case headers p of
        None \<Rightarrow> Some (BinaryNotFound p)
      | Some found \<Rightarrow> findMissing headers ps)"

definition validateBinaries :: "Blob \<Rightarrow> error option" where
  "validateBinaries blob =
     (case blob of
        Inl err \<Rightarrow> Some (Wrap err ''create lifecycle blob reader'')
      | Inr rc \<Rightarrow>
          (case broken rc of
             Some err \<Rightarrow> Some (Wrap err ''failed to get next tar entry'')
           | None \<Rightarrow> findMissing (scanHeaders (entries rc) Map.empty) lifecycleBinaries))"

text \<open>
  Modelled from the spec: \<open>archive.ReadTarEntry\<close> is in a file of the repository
  that is not at hand. The validator "attempts to read a single well-known descriptor entry
  from the blob", which is either there or absent; \<open>NewLifecycle\<close> tells the
  absent entry by the cause \<open>archive.ErrEntryNotExist\<close> of the error. The entry
  is looked for by its cleaned name, in the sequence of the archive.
\<close>

fun findEntry :: "(Header \<times> (error + string)) list \<Rightarrow> string \<Rightarrow> (error + string) option" where
  "findEntry [] entryPath = None"
| "findEntry ((header, contents) # es) entryPath =
     (if Clean (Name header) = entryPath then Some contents else findEntry es entryPath)"

definition ReadTarEntry :: "archive \<Rightarrow> string \<Rightarrow> error + string" where
  "ReadTarEntry rc entryPath =
     (case findEntry (entries rc) entryPath of
        Some (Inr buf) \<Rightarrow> Inr buf
      | Some (Inl err) \<Rightarrow> Inl (Wrap err ''failed to read contents'')
      | None \<Rightarrow>
          (case broken rc of
             Some err \<Rightarrow> Inl (Wrap err ''failed to get next tar entry'')
           | None \<Rightarrow> Inl (Wrap ErrEntryNotExist ''could not find entry path'')))"

text \<open>
  \<open>NewLifecycle\<close>. The decoder of the descriptor document (\<open>toml.Decode\<close>) is a
  parameter. The branch for an absent descriptor returns at once.
\<close>

definition NewLifecycle :: "(string \<Rightarrow> error + LifecycleDescriptor) \<Rightarrow> Blob \<Rightarrow> error + lifecycle" where
  "NewLifecycle tomlDecode blob =
     (case blob of
        Inl err \<Rightarrow> Inl (Wrap err ''open lifecycle blob'')
      | Inr br \<Rightarrow>
          (case ReadTarEntry br ''lifecycle.toml'' of
             Inl err \<Rightarrow>
               if Cause err = ErrEntryNotExist
               then Inr \<lparr>descriptor = DefaultLifecycleDescriptor, LBlob = blob\<rparr>
               else Inl (Wrap err ''decode lifecycle descriptor'')
           | Inr buf \<Rightarrow>
               (case tomlDecode buf of
                  Inl err \<Rightarrow> Inl (Wrap err ''decoding descriptor'')
                | Inr decoded \<Rightarrow>
                    (case validateBinaries blob of
                       Some err \<Rightarrow> Inl (Wrap err ''validating binaries'')
                     | None \<Rightarrow> Inr \<lparr>descriptor = decoded, LBlob = blob\<rparr>))))"

text \<open>
  A name is observed in an archive when it is the file name of an entry whose
  cleaned path is one directory and then one file name.
\<close>

definition observed :: "(Header \<times> (error + string)) list \<Rightarrow> string \<Rightarrow> bool" where
  "observed es binary = (\<exists>e\<in>set es. pathMatches (Clean (Name (fst e))) = Some binary)"

section \<open>The builder aggregate\<close>

subsection \<open>State\<close>

text \<open>
  Modelled from the spec: the types \<open>Metadata\<close>, \<open>LifecycleMetadata\<close>,
  \<open>StackMetadata\<close>, \<open>RunImageMetadata\<close> and the type of the legacy groups are
  declared in a file of the package that is not at hand. The metadata holds a
  description, the lifecycle version and API, the stack metadata (the run image
  and its mirrors), the list of the known buildpacks and the legacy groups; the
  records have these as the fields the code reads or writes.
  \<open>LifecycleMetadata\<close> embeds \<open>LifecycleInfo\<close> (Save assigns
  \<open>b.metadata.Lifecycle.LifecycleInfo\<close> and reads \<open>b.metadata.Lifecycle.Version\<close>)
  and has the field \<open>API\<close>, here \<open>MAPI\<close>. The type of the groups is the
  parameter \<open>'g\<close>.
\<close>

record LifecycleMetadata = LifecycleInfo +
  MAPI :: LifecycleAPI

record RunImageMetadata =
  Image :: string
  Mirrors :: "string list"

record StackMetadata =
  RunImage :: RunImageMetadata

record 'g Metadata =
  Description :: string
  Buildpacks :: "BuildpackMetadata list"
  Groups :: 'g
  Stack :: StackMetadata
  Lifecycle :: LifecycleMetadata

text \<open>
  The builder without its image handle, which is the log of image operations
  below. \<open>env\<close> is a Go map; it is listed here in the sequence in which this run
  of \<open>range\<close> visits it.
\<close>

record 'g Builder =
  lifecycle :: "lifecycle option"
  additionalBuildpacks :: "Blob Buildpack list"
  metadata :: "'g Metadata"
  env :: "(string \<times> string) list"
  UID :: int
  GID :: int
  StackID :: string
  replaceOrder :: bool
  order :: Order

definition buildpacksDir :: string where
  "buildpacksDir = ''/buildpacks''"

definition platformDir :: string where
  "platformDir = ''/platform''"

definition lifecycleDir :: string where
  "lifecycleDir = ''/lifecycle''"

definition workspaceDir :: string where
  "workspaceDir = ''/workspace''"

definition layersDir :: string where
  "layersDir = ''/layers''"

definition GetLifecycleVersion :: "'g Builder \<Rightarrow> semver option" where
  "GetLifecycleVersion b = LifecycleVersion (Lifecycle (metadata b))"

definition AddBuildpack :: "'g Builder \<Rightarrow> Blob Buildpack \<Rightarrow> 'g Builder" where
  "AddBuildpack b bp =
     b\<lparr>additionalBuildpacks := additionalBuildpacks b @ [bp],
       metadata := (metadata b)\<lparr>Buildpacks := Buildpacks (metadata b)
         @ [\<lparr>ID = ID (Info bp), Version = Version (Info bp), Latest = False\<rparr>]\<rparr>\<rparr>"

definition SetLifecycle :: "'g Builder \<Rightarrow> lifecycle \<Rightarrow> 'g Builder" where
  "SetLifecycle b l = b\<lparr>lifecycle := Some l\<rparr>"

definition SetEnv :: "'g Builder \<Rightarrow> (string \<times> string) list \<Rightarrow> 'g Builder" where
  "SetEnv b e = b\<lparr>env := e\<rparr>"

definition SetOrder :: "'g Builder \<Rightarrow> Order \<Rightarrow> 'g Builder" where
  "SetOrder b ord = b\<lparr>order := ord, replaceOrder := True\<rparr>"

text \<open>
  The condition \<open>lifecycleVersion != nil && lifecycleVersion.LessThan(semver.MustParse("0.4.0"))\<close>
  of \<open>orderLayer\<close> and \<open>buildpackLayer\<close>.
\<close>

definition olderThan_0_4_0 :: "'g Builder \<Rightarrow> bool" where
  "olderThan_0_4_0 b =
     (case GetLifecycleVersion b of
        None \<Rightarrow> False
      | Some lifecycleVersion \<Rightarrow> LessThan lifecycleVersion v0_4_0)"

subsection \<open>Collaborators\<close>

text \<open>
  What is written to a \<open>tar.Writer\<close>, in sequence; a layer file is either such a
  sequence or what \<open>archive.CreateSingleFileTar\<close> makes of a path and a text.
  The operations on the image are logged with the file handed over.
\<close>

datatype tar_write = WroteHeader Header | WroteData string

datatype layer = TarFile "tar_write list" | SingleFileTar string string

datatype img_op =
    AddLayer string layer
  | SetLabel string string
  | SetWorkingDir string
  | Commit

text \<open>The values \<open>orderLayer\<close> and \<open>stackLayer\<close> hand to the TOML encoder.\<close>

datatype 'g tomlData = V1OrderTOML 'g | OrderTOML Order | StackTOML StackMetadata

text \<open>
  The functions, methods and constants of the package that are declared in files
  that are not at hand are parameters: \<open>processMetadata\<close> (which works on the
  metadata through a pointer and returns an error), \<open>Order.ToV1Order\<close>,
  \<open>Buildpack.EscapedID\<close> and the constant \<open>MetadataLabel\<close>.
\<close>

record 'g extern =
  processMetadata :: "'g Metadata \<Rightarrow> 'g Metadata \<times> error option"
  ToV1Order :: "Order \<Rightarrow> 'g"
  EscapedID :: "Blob Buildpack \<Rightarrow> string"
  MetadataLabel :: string

text \<open>
  The answers of the collaborators outside the package. The file system, the
  tar writer and the encoders answer by their arguments; the image answers by
  the operations it has seen so far and the one asked.
\<close>

record 'g world =
  TempDir :: "error + string"
  Create :: "string \<Rightarrow> error option"
  WriteHeader :: "Header \<Rightarrow> error option"
  Write :: "string \<Rightarrow> error option"
  Now :: nat
  tomlEncode :: "'g tomlData \<Rightarrow> error + string"
  CreateSingleFileTar :: "string \<Rightarrow> string \<Rightarrow> string \<Rightarrow> error option"
  jsonMarshal :: "'g Metadata \<Rightarrow> error + string"
  imageFails :: "img_op list \<Rightarrow> img_op \<Rightarrow> error option"

text \<open>
  A call that returns an error, returns a value, or panics: the third is what is
  left of a nil dereference at run time.
\<close>

datatype 'a result = Ok 'a | Err error | Panic

text \<open>\<open>path.Join\<close> and \<open>filepath.Join\<close>: the non-empty elements, joined and cleaned.\<close>

definition Join :: "string list \<Rightarrow> string" where
  "Join elems =
     (case filter (\<lambda>e. e \<noteq> []) elems of
        [] \<Rightarrow> []
      | e # es \<Rightarrow> Clean (joinSlash (e # es)))"

subsection \<open>Layers\<close>

text \<open>The octal file modes \<open>0755\<close> and \<open>0644\<close>.\<close>

definition mode0755 :: int where
  "mode0755 = 7 * 64 + 5 * 8 + 5"

definition mode0644 :: int where
  "mode0644 = 6 * 64 + 4 * 8 + 4"

definition packOwnedDir :: "'g Builder \<Rightarrow> string \<Rightarrow> nat \<Rightarrow> Header" where
  "packOwnedDir b path time =
     \<lparr>Typeflag = TypeDir, Name = path, Linkname = [], Size = 0, Mode = mode0755,
      Uid = UID b, Gid = GID b, ModTime = time\<rparr>"

definition rootOwnedDir :: "'g Builder \<Rightarrow> string \<Rightarrow> nat \<Rightarrow> Header" where
  "rootOwnedDir b path time =
     \<lparr>Typeflag = TypeDir, Name = path, Linkname = [], Size = 0, Mode = mode0755,
      Uid = 0, Gid = 0, ModTime = time\<rparr>"

text \<open>\<open>tw.WriteHeader\<close> and \<open>tw.Write\<close>, on what the writer holds so far.\<close>

definition writeHeader :: "'g world \<Rightarrow> tar_write list \<Rightarrow> Header \<Rightarrow> error + tar_write list" where
  "writeHeader w tw h =
     (case WriteHeader w h of
        Some err \<Rightarrow> Inl err
      | None \<Rightarrow> Inr (tw @ [WroteHeader h]))"

definition writeData :: "'g world \<Rightarrow> tar_write list \<Rightarrow> string \<Rightarrow> error + tar_write list" where
  "writeData w tw buf =
     (case Write w buf of
        Some err \<Rightarrow> Inl err
      | None \<Rightarrow> Inr (tw @ [WroteData buf]))"

text \<open>
  \<open>defaultDirsLayer\<close>: five headers, each written the same way, its error wrapped
  with the name of the directory.
\<close>

definition defaultDirs :: "'g Builder \<Rightarrow> nat \<Rightarrow> Header list" where
  "defaultDirs b now =
     [packOwnedDir b workspaceDir now, packOwnedDir b layersDir now,
      rootOwnedDir b buildpacksDir now, rootOwnedDir b platformDir now,
      rootOwnedDir b (platformDir @ ''/env'') now]"

fun writeDirs :: "'g world \<Rightarrow> Header list \<Rightarrow> tar_write list \<Rightarrow> error + tar_write list" where
  "writeDirs w [] tw = Inr tw"
| "writeDirs w (h # hs) tw =
     (case writeHeader w tw h of
        Inl err \<Rightarrow> Inl (Wrap err (''creating '' @ Name h @ '' dir in layer''))
      | Inr tw' \<Rightarrow> writeDirs w hs tw')"

definition defaultDirsLayer :: "'g world \<Rightarrow> 'g Builder \<Rightarrow> string \<Rightarrow> error + string \<times> layer" where
  "defaultDirsLayer w b dest =
     (let fh = Join [dest, ''dirs.tar''] in
      case Create w fh of
        Some err \<Rightarrow> Inl err
      | None \<Rightarrow>
          (case writeDirs w (defaultDirs b (Now w)) [] of
             Inl err \<Rightarrow> Inl err
           | Inr tw \<Rightarrow> Inr (fh, TarFile tw)))"

text \<open>\<open>envLayer\<close>: the loop over the environment, then the function.\<close>

fun writeEnv :: "'g world \<Rightarrow> (string \<times> string) list \<Rightarrow> tar_write list \<Rightarrow> error + tar_write list" where
  "writeEnv w [] tw = Inr tw"
| "writeEnv w ((k, v) # kvs) tw =
     (case writeHeader w tw
             \<lparr>Typeflag = TypeZero, Name = Join [platformDir, ''env'', k], Linkname = [],
              Size = int (length v), Mode = mode0644, Uid = 0, Gid = 0, ModTime = Now w\<rparr> of
        Inl err \<Rightarrow> Inl err
      | Inr tw' \<Rightarrow>
          (case writeData w tw' v of
             Inl err \<Rightarrow> Inl err
           | Inr tw'' \<Rightarrow> writeEnv w kvs tw''))"

definition envLayer :: "'g world \<Rightarrow> string \<Rightarrow> (string \<times> string) list \<Rightarrow> error + string \<times> layer" where
  "envLayer w dest e =
     (let fh = Join [dest, ''env.tar''] in
      case Create w fh of
        Some err \<Rightarrow> Inl err
      | None \<Rightarrow>
          (case writeEnv w e [] of
             Inl err \<Rightarrow> Inl err
           | Inr tw \<Rightarrow> Inr (fh, TarFile tw)))"

text \<open>\<open>embedLifecycleTar\<close>: the loop over the entries of the blob, then the function.\<close>

fun copyLifecycleEntries ::
  "'g world \<Rightarrow> (Header \<times> (error + string)) list \<Rightarrow> tar_write list \<Rightarrow> error + tar_write list" where
  "copyLifecycleEntries w [] tw = Inr tw"
| "copyLifecycleEntries w ((header, contents) # es) tw =
     (case pathMatches (Clean (Name header)) of
        None \<Rightarrow> copyLifecycleEntries w es tw
      | Some binaryName \<Rightarrow>
          (case writeHeader w tw (header\<lparr>Name := lifecycleDir @ ''/'' @ binaryName\<rparr>) of
             Inl err \<Rightarrow> Inl (Wrap err (''failed to write header for '' @ lifecycleDir @ ''/'' @ binaryName))
           | Inr tw' \<Rightarrow>
               (case contents of
                  Inl err \<Rightarrow> Inl (Wrap err (''failed to read contents of '' @ lifecycleDir @ ''/'' @ binaryName))
                | Inr buf \<Rightarrow>
                    (case writeData w tw' buf of
                       Inl err \<Rightarrow> Inl (Wrap err (''failed to write contents to '' @ lifecycleDir @ ''/'' @ binaryName))
                     | Inr tw'' \<Rightarrow> copyLifecycleEntries w es tw''))))"

definition embedLifecycleTar :: "'g world \<Rightarrow> lifecycle \<Rightarrow> tar_write list \<Rightarrow> error + tar_write list" where
  "embedLifecycleTar w l tw =
     (case LBlob l of
        Inl err \<Rightarrow> Inl (Wrap err ''failed to open lifecycle'')
      | Inr lr \<Rightarrow>
          (case copyLifecycleEntries w (entries lr) tw of
             Inl err \<Rightarrow> Inl err
           | Inr tw' \<Rightarrow>
               (case broken lr of
                  Some err \<Rightarrow> Inl (Wrap err ''failed to get next tar entry'')
                | None \<Rightarrow> Inr tw')))"

definition lifecycleLayer :: "'g world \<Rightarrow> lifecycle \<Rightarrow> string \<Rightarrow> error + string \<times> layer" where
  "lifecycleLayer w l dest =
     (let fh = Join [dest, ''lifecycle.tar''] in
      case Create w fh of
        Some err \<Rightarrow> Inl err
      | None \<Rightarrow>
          (case writeHeader w []
                  \<lparr>Typeflag = TypeDir, Name = lifecycleDir, Linkname = [], Size = 0,
                   Mode = mode0755, Uid = 0, Gid = 0, ModTime = Now w\<rparr> of
             Inl err \<Rightarrow> Inl err
           | Inr tw \<Rightarrow>
               (case embedLifecycleTar w l tw of
                  Inl err \<Rightarrow> Inl err
                | Inr tw' \<Rightarrow> Inr (fh, TarFile tw'))))"

text \<open>
  \<open>embedBuildpackTar\<close>. When \<open>bp.Open()\<close> returns an error, the function calls
  \<open>errors.Wrap\<close> on it and drops the result: there is no \<open>return\<close>. It goes on to
  \<open>defer rc.Close()\<close> and to read from \<open>rc\<close>, which is nil after a failed
  \<open>Open\<close>, and that is a nil dereference: the call panics.
\<close>

fun copyBuildpackEntries ::
  "'g world \<Rightarrow> 'g Builder \<Rightarrow> string \<Rightarrow> (Header \<times> (error + string)) list \<Rightarrow> tar_write list
     \<Rightarrow> error + tar_write list" where
  "copyBuildpackEntries w b baseTarDir [] tw = Inr tw"
| "copyBuildpackEntries w b baseTarDir ((header, contents) # es) tw =
     (let name = Clean (Name header) in
      if name = ''.'' \<or> name = ''/'' then copyBuildpackEntries w b baseTarDir es tw
      else
        (let name' = Clean (Join [baseTarDir, name]) in
         case writeHeader w tw (header\<lparr>Name := name', Uid := UID b, Gid := GID b\<rparr>) of
           Inl err \<Rightarrow> Inl (Wrap err (''failed to write header for '' @ name'))
         | Inr tw' \<Rightarrow>
             (case contents of
                Inl err \<Rightarrow> Inl (Wrap err (''failed to read contents of '' @ name'))
              | Inr buf \<Rightarrow>
                  (case writeData w tw' buf of
                     Inl err \<Rightarrow> Inl (Wrap err (''failed to write contents to '' @ name'))
                   | Inr tw'' \<Rightarrow> copyBuildpackEntries w b baseTarDir es tw''))))"

definition embedBuildpackTar ::
  "'g world \<Rightarrow> 'g Builder \<Rightarrow> tar_write list \<Rightarrow> Blob Buildpack \<Rightarrow> string \<Rightarrow> tar_write list result" where
  "embedBuildpackTar w b tw bp baseTarDir =
     (case Blob bp of
        Inl err \<Rightarrow> Panic
      | Inr rc \<Rightarrow>
          (case copyBuildpackEntries w b baseTarDir (entries rc) tw of
             Inl err \<Rightarrow> Err err
           | Inr tw' \<Rightarrow>
               (case broken rc of
                  Some err \<Rightarrow> Err (Wrap err ''failed to get next tar entry'')
                | None \<Rightarrow> Ok tw')))"

text \<open>\<open>buildpackLayer\<close>: the layer file \<open>{ID}.{V}.tar\<close> with \<open>/buildpacks/{ID}/{V}/*\<close>.\<close>

definition dirHeader :: "string \<Rightarrow> nat \<Rightarrow> Header" where
  "dirHeader path now =
     \<lparr>Typeflag = TypeDir, Name = path, Linkname = [], Size = 0, Mode = mode0755,
      Uid = 0, Gid = 0, ModTime = now\<rparr>"

text \<open>
  The part of \<open>buildpackLayer\<close> before the version of the lifecycle is looked at:
  the file, the two directory headers, the entries of the blob. It gives the name
  of the layer file, the base directory and what the writer holds.
\<close>

definition buildpackFiles ::
  "'g extern \<Rightarrow> 'g world \<Rightarrow> 'g Builder \<Rightarrow> string \<Rightarrow> Blob Buildpack
     \<Rightarrow> (string \<times> string \<times> tar_write list) result" where
  "buildpackFiles x w b dest bp =
     (let layerTar = Join [dest, EscapedID x bp @ ''.'' @ Version (Info bp) @ ''.tar''] in
      case Create w layerTar of
        Some err \<Rightarrow> Err (CreateFileForTar err)
      | None \<Rightarrow>
          (case writeHeader w [] (dirHeader (Join [buildpacksDir, EscapedID x bp]) (Now w)) of
             Inl err \<Rightarrow> Err err
           | Inr tw1 \<Rightarrow>
               (let baseTarDir = Join [buildpacksDir, EscapedID x bp, Version (Info bp)] in
                case writeHeader w tw1 (dirHeader baseTarDir (Now w)) of
                  Inl err \<Rightarrow> Err err
                | Inr tw2 \<Rightarrow>
                    (case embedBuildpackTar w b tw2 bp baseTarDir of
                       Panic \<Rightarrow> Panic
                     | Err err \<Rightarrow>
                         Err (Wrap err (''creating layer tar for buildpack '' @ ID (Info bp) @ '':'' @ Version (Info bp)))
                     | Ok tw3 \<Rightarrow> Ok (layerTar, baseTarDir, tw3)))))"

text \<open>
  Modelled from the spec: \<open>symlinkLatest\<close> is declared in a file of the package
  that is not at hand. The description of the buildpack layer has what it writes:
  for a lifecycle older than 0.4.0 "an additional latest symlink alias pointing at
  the version directory is written", a symlink header \<open>latest\<close> beside the version
  directory that links to it. The call hands the function the metadata of the
  builder besides the writer, the version directory and the buildpack: the package
  writes the alias only if the metadata marks a buildpack with the id of this one
  as the latest, and stops at the first such entry. The description leaves that
  condition out; the definition has it, as the package does.
\<close>

definition latestAlias :: "string \<Rightarrow> string \<Rightarrow> Header" where
  "latestAlias escapedID baseTarDir =
     \<lparr>Typeflag = TypeSymlink, Name = buildpacksDir @ ''/'' @ escapedID @ ''/latest'',
      Linkname = baseTarDir, Size = 0, Mode = mode0644, Uid = 0, Gid = 0, ModTime = 0\<rparr>"

fun symlinkLatestLoop ::
  "'g extern \<Rightarrow> 'g world \<Rightarrow> tar_write list \<Rightarrow> string \<Rightarrow> Blob Buildpack \<Rightarrow> BuildpackMetadata list
     \<Rightarrow> error + tar_write list" where
  "symlinkLatestLoop x w tw baseTarDir bp [] = Inr tw"
| "symlinkLatestLoop x w tw baseTarDir bp (m # ms) =
     (if ID m = ID (Info bp) \<and> Latest m
      then (case writeHeader w tw (latestAlias (EscapedID x bp) baseTarDir) of
              Inl err \<Rightarrow>
                Inl (Wrap err (''creating latest symlink for buildpack '' @ ID (Info bp) @ '':'' @ Version (Info bp)))
            | Inr tw' \<Rightarrow> Inr tw')
      else symlinkLatestLoop x w tw baseTarDir bp ms)"

definition symlinkLatest ::
  "'g extern \<Rightarrow> 'g world \<Rightarrow> tar_write list \<Rightarrow> string \<Rightarrow> Blob Buildpack \<Rightarrow> 'g Metadata
     \<Rightarrow> error + tar_write list" where
  "symlinkLatest x w tw baseTarDir bp md = symlinkLatestLoop x w tw baseTarDir bp (Buildpacks md)"


text \<open>The rest of \<open>buildpackLayer\<close>: the call of \<open>symlinkLatest\<close> for an older lifecycle.\<close>

definition buildpackLayer ::
  "'g extern \<Rightarrow> 'g world \<Rightarrow> 'g Builder \<Rightarrow> string \<Rightarrow> Blob Buildpack \<Rightarrow> (string \<times> layer) result" where
  "buildpackLayer x w b dest bp =
     (case buildpackFiles x w b dest bp of
        Panic \<Rightarrow> Panic
      | Err err \<Rightarrow> Err err
      | Ok (layerTar, baseTarDir, tw) \<Rightarrow>
          if olderThan_0_4_0 b
          then (case symlinkLatest x w tw baseTarDir bp (metadata b) of
                  Inl err \<Rightarrow> Err err
                | Inr tw' \<Rightarrow> Ok (layerTar, TarFile tw'))
          else Ok (layerTar, TarFile tw))"

text \<open>\<open>orderLayer\<close> and \<open>stackLayer\<close>.\<close>

definition orderTomlData :: "'g Builder \<Rightarrow> 'g tomlData" where
  "orderTomlData b =
     (if olderThan_0_4_0 b then V1OrderTOML (Groups (metadata b)) else OrderTOML (order b))"

definition orderLayer :: "'g world \<Rightarrow> 'g Builder \<Rightarrow> string \<Rightarrow> error + string \<times> layer" where
  "orderLayer w b dest =
     (case tomlEncode w (orderTomlData b) of
        Inl err \<Rightarrow> Inl (Wrap err ''failed to marshal order.toml'')
      | Inr buf \<Rightarrow>
          (let layerTar = Join [dest, ''order.tar''] in
           case CreateSingleFileTar w layerTar (Join [buildpacksDir, ''order.toml'']) buf of
             Some err \<Rightarrow> Inl (Wrap err ''failed to create order.toml layer tar'')
           | None \<Rightarrow> Inr (layerTar, SingleFileTar (Join [buildpacksDir, ''order.toml'']) buf)))"

definition stackLayer :: "'g world \<Rightarrow> 'g Builder \<Rightarrow> string \<Rightarrow> error + string \<times> layer" where
  "stackLayer w b dest =
     (case tomlEncode w (StackTOML (Stack (metadata b))) of
        Inl err \<Rightarrow> Inl (Wrap err ''failed to marshal stack.toml'')
      | Inr buf \<Rightarrow>
          (let layerTar = Join [dest, ''stack.tar''] in
           case CreateSingleFileTar w layerTar (Join [buildpacksDir, ''stack.toml'']) buf of
             Some err \<Rightarrow> Inl (Wrap err ''failed to create stack.toml layer tar'')
           | None \<Rightarrow> Inr (layerTar, SingleFileTar (Join [buildpacksDir, ''stack.toml'']) buf)))"

section \<open>Save\<close>

text \<open>
  An operation on the image joins the log, and the image answers. \<open>Save\<close> gives
  the builder as it stands afterwards, the log of the operations on the image, and
  how the call ended. The body of \<open>Save\<close> is cut into its stages, each ending
  in the next; they are defined last stage first.
\<close>

definition imageCall :: "'g world \<Rightarrow> img_op list \<Rightarrow> img_op \<Rightarrow> img_op list \<times> error option" where
  "imageCall w ops op = (ops @ [op], imageFails w ops op)"

text \<open>The end of \<open>Save\<close>: the label, the working directory, \<open>b.image.Save()\<close>.\<close>

definition saveFinish ::
  "'g extern \<Rightarrow> 'g world \<Rightarrow> 'g Builder \<Rightarrow> img_op list \<Rightarrow> 'g Builder \<times> img_op list \<times> unit result" where
  "saveFinish x w b ops =
     (case jsonMarshal w (metadata b) of
        Inl err \<Rightarrow> (b, ops, Err (Wrap err ''failed marshal builder image metadata''))
      | Inr label \<Rightarrow>
          (case imageCall w ops (SetLabel (MetadataLabel x) label) of
             (ops1, Some err) \<Rightarrow> (b, ops1, Err (Wrap err ''failed to set metadata label''))
           | (ops1, None) \<Rightarrow>
               (case imageCall w ops1 (SetWorkingDir layersDir) of
                  (ops2, Some err) \<Rightarrow> (b, ops2, Err (Wrap err ''failed to set working dir''))
                | (ops2, None) \<Rightarrow>
                    (case imageCall w ops2 Commit of
                       (ops3, Some err) \<Rightarrow> (b, ops3, Err err)
                     | (ops3, None) \<Rightarrow> (b, ops3, Ok ())))))"

definition saveStack ::
  "'g extern \<Rightarrow> 'g world \<Rightarrow> 'g Builder \<Rightarrow> string \<Rightarrow> img_op list \<Rightarrow> 'g Builder \<times> img_op list \<times> unit result" where
  "saveStack x w b tmpDir ops =
     (case stackLayer w b tmpDir of
        Inl err \<Rightarrow> (b, ops, Err err)
      | Inr (stackTar, file) \<Rightarrow>
          (case imageCall w ops (AddLayer stackTar file) of
             (ops', Some err) \<Rightarrow> (b, ops', Err (Wrap err ''adding stack.tar layer''))
           | (ops', None) \<Rightarrow> saveFinish x w b ops'))"

definition saveOrder ::
  "'g extern \<Rightarrow> 'g world \<Rightarrow> 'g Builder \<Rightarrow> string \<Rightarrow> img_op list \<Rightarrow> 'g Builder \<times> img_op list \<times> unit result" where
  "saveOrder x w b tmpDir ops =
     (if replaceOrder b
      then (case orderLayer w b tmpDir of
              Inl err \<Rightarrow> (b, ops, Err err)
            | Inr (orderTar, file) \<Rightarrow>
                (case imageCall w ops (AddLayer orderTar file) of
                   (ops', Some err) \<Rightarrow> (b, ops', Err (Wrap err ''adding order.tar layer''))
                 | (ops', None) \<Rightarrow> saveStack x w b tmpDir ops'))
      else saveStack x w b tmpDir ops)"

text \<open>The loop over \<open>b.additionalBuildpacks\<close>.\<close>

fun addBuildpackLayers ::
  "'g extern \<Rightarrow> 'g world \<Rightarrow> 'g Builder \<Rightarrow> string \<Rightarrow> Blob Buildpack list \<Rightarrow> img_op list
     \<Rightarrow> img_op list \<times> unit result" where
  "addBuildpackLayers x w b tmpDir [] ops = (ops, Ok ())"
| "addBuildpackLayers x w b tmpDir (bp # bps) ops =
     (case buildpackLayer x w b tmpDir bp of
        Panic \<Rightarrow> (ops, Panic)
      | Err err \<Rightarrow> (ops, Err err)
      | Ok (layerTar, file) \<Rightarrow>
          (case imageCall w ops (AddLayer layerTar file) of
             (ops', Some err) \<Rightarrow>
               (ops', Err (Wrap err (''adding layer tar for buildpack '' @ ID (Info bp) @ '':'' @ Version (Info bp))))
           | (ops', None) \<Rightarrow> addBuildpackLayers x w b tmpDir bps ops'))"

definition saveBuildpacks ::
  "'g extern \<Rightarrow> 'g world \<Rightarrow> 'g Builder \<Rightarrow> string \<Rightarrow> img_op list \<Rightarrow> 'g Builder \<times> img_op list \<times> unit result" where
  "saveBuildpacks x w b tmpDir ops =
     (case addBuildpackLayers x w b tmpDir (additionalBuildpacks b) ops of
        (ops', Panic) \<Rightarrow> (b, ops', Panic)
      | (ops', Err err) \<Rightarrow> (b, ops', Err err)
      | (ops', Ok u) \<Rightarrow> saveOrder x w b tmpDir ops')"

text \<open>
  The lifecycle, when one is set: its descriptor goes into the metadata before
  its layer and every later layer is made.
\<close>

definition saveLifecycle ::
  "'g extern \<Rightarrow> 'g world \<Rightarrow> 'g Builder \<Rightarrow> string \<Rightarrow> img_op list \<Rightarrow> 'g Builder \<times> img_op list \<times> unit result" where
  "saveLifecycle x w b tmpDir ops =
     (case lifecycle b of
        None \<Rightarrow> saveBuildpacks x w b tmpDir ops
      | Some l \<Rightarrow>
          (let b' = b\<lparr>metadata := (metadata b)
                       \<lparr>Lifecycle := \<lparr>LifecycleVersion = LifecycleVersion (DInfo (descriptor l)),
                                      MAPI = API (descriptor l)\<rparr>\<rparr>\<rparr> in
           case lifecycleLayer w l tmpDir of
             Inl err \<Rightarrow> (b', ops, Err err)
           | Inr (lifecycleTar, file) \<Rightarrow>
               (case imageCall w ops (AddLayer lifecycleTar file) of
                  (ops', Some err) \<Rightarrow> (b', ops', Err (Wrap err ''adding lifecycle layer''))
                | (ops', None) \<Rightarrow> saveBuildpacks x w b' tmpDir ops')))"

definition saveEnv ::
  "'g extern \<Rightarrow> 'g world \<Rightarrow> 'g Builder \<Rightarrow> string \<Rightarrow> img_op list \<Rightarrow> 'g Builder \<times> img_op list \<times> unit result" where
  "saveEnv x w b tmpDir ops =
     (case envLayer w tmpDir (env b) of
        Inl err \<Rightarrow> (b, ops, Err err)
      | Inr (envTar, file) \<Rightarrow>
          (case imageCall w ops (AddLayer envTar file) of
             (ops', Some err) \<Rightarrow> (b, ops', Err (Wrap err ''adding env layer''))
           | (ops', None) \<Rightarrow> saveLifecycle x w b tmpDir ops'))"

definition saveDirs ::
  "'g extern \<Rightarrow> 'g world \<Rightarrow> 'g Builder \<Rightarrow> string \<Rightarrow> img_op list \<Rightarrow> 'g Builder \<times> img_op list \<times> unit result" where
  "saveDirs x w b tmpDir ops =
     (case defaultDirsLayer w b tmpDir of
        Inl err \<Rightarrow> (b, ops, Err err)
      | Inr (dirsTar, file) \<Rightarrow>
          (case imageCall w ops (AddLayer dirsTar file) of
             (ops', Some err) \<Rightarrow> (b, ops', Err (Wrap err ''adding default dirs layer''))
           | (ops', None) \<Rightarrow> saveEnv x w b tmpDir ops'))"

text \<open>
  The start of \<open>Save\<close>: the order is resolved in place, the groups are made from
  it, the metadata is processed, the buildpacks are validated, the scratch
  directory is made.
\<close>

definition Save :: "'g extern \<Rightarrow> 'g world \<Rightarrow> 'g Builder \<Rightarrow> 'g Builder \<times> img_op list \<times> unit result" where
  "Save x w b =
     (case processOrder (Buildpacks (metadata b)) (order b) of
        (resolved, Some err) \<Rightarrow> (b\<lparr>order := resolved\<rparr>, [], Err (Wrap err ''processing order''))
      | (resolved, None) \<Rightarrow>
          (let b1 = b\<lparr>order := resolved,
                      metadata := (metadata b)\<lparr>Groups := ToV1Order x resolved\<rparr>\<rparr> in
           case processMetadata x (metadata b1) of
             (md, Some err) \<Rightarrow> (b1\<lparr>metadata := md\<rparr>, [], Err (Wrap err ''processing metadata''))
           | (md, None) \<Rightarrow>
               (let b2 = b1\<lparr>metadata := md\<rparr> in
                case validateBuildpacks (StackID b2) (additionalBuildpacks b2) of
                  Some err \<Rightarrow> (b2, [], Err (Wrap err ''validating buildpacks''))
                | None \<Rightarrow>
                    (case TempDir w of
                       Inl err \<Rightarrow> (b2, [], Err err)
                     | Inr tmpDir \<Rightarrow> saveDirs x w b2 tmpDir []))))"

section \<open>What a completed Save leaves\<close>

text \<open>
  The builder after \<open>Save\<close> has gone through all its stages: the order resolved,
  the groups made from it, the metadata processed, and the descriptor of the
  lifecycle, when one is set, in the metadata.
\<close>

definition withDescriptor :: "'g Builder \<Rightarrow> 'g Builder" where
  "withDescriptor b =
     (case lifecycle b of
        None \<Rightarrow> b
      | Some l \<Rightarrow> b\<lparr>metadata := (metadata b)
                       \<lparr>Lifecycle := \<lparr>LifecycleVersion = LifecycleVersion (DInfo (descriptor l)),
                                      MAPI = API (descriptor l)\<rparr>\<rparr>\<rparr>)"

definition savedBuilder :: "'g extern \<Rightarrow> 'g Builder \<Rightarrow> 'g Builder" where
  "savedBuilder x b =
     (let resolved = fst (processOrder (Buildpacks (metadata b)) (order b));
          md = fst (processMetadata x ((metadata b)\<lparr>Groups := ToV1Order x resolved\<rparr>))
      in withDescriptor (b\<lparr>order := resolved, metadata := md\<rparr>))"

text \<open>
  The operations on the image in the sequence the description of \<open>Save\<close> gives
  them: the layers for the directories, the environment, the lifecycle when one
  is set, each pending buildpack in the sequence of registration, the order when
  it was replaced, the stack; then the label, the working directory, the commit.
  A layer that could not be made has no operation here.
\<close>

definition layerOp :: "error + string \<times> layer \<Rightarrow> img_op list" where
  "layerOp made = (case made of Inl err \<Rightarrow> [] | Inr (path, file) \<Rightarrow> [AddLayer path file])"

definition buildpackOp :: "(string \<times> layer) result \<Rightarrow> img_op list" where
  "buildpackOp made = (case made of Ok (path, file) \<Rightarrow> [AddLayer path file] | Err err \<Rightarrow> [] | Panic \<Rightarrow> [])"

definition labelOp :: "'g extern \<Rightarrow> 'g world \<Rightarrow> 'g Builder \<Rightarrow> img_op list" where
  "labelOp x w b =
     (case jsonMarshal w (metadata b) of
        Inl err \<Rightarrow> []
      | Inr label \<Rightarrow> [SetLabel (MetadataLabel x) label])"

definition laterOps :: "'g extern \<Rightarrow> 'g world \<Rightarrow> 'g Builder \<Rightarrow> string \<Rightarrow> img_op list" where
  "laterOps x w b tmpDir =
     concat (map (\<lambda>bp. buildpackOp (buildpackLayer x w b tmpDir bp)) (additionalBuildpacks b))
     @ (if replaceOrder b then layerOp (orderLayer w b tmpDir) else [])
     @ layerOp (stackLayer w b tmpDir)
     @ labelOp x w b
     @ [SetWorkingDir layersDir, Commit]"

definition savedOps :: "'g extern \<Rightarrow> 'g world \<Rightarrow> 'g Builder \<Rightarrow> string \<Rightarrow> img_op list" where
  "savedOps x w b tmpDir =
     layerOp (defaultDirsLayer w b tmpDir)
     @ layerOp (envLayer w tmpDir (env b))
     @ (case lifecycle b of None \<Rightarrow> [] | Some l \<Rightarrow> layerOp (lifecycleLayer w l tmpDir))
     @ laterOps x w b tmpDir"

text \<open>Every layer of a builder can be made and its metadata can be encoded.\<close>

definition succeeded :: "error + 'a \<Rightarrow> bool" where
  "succeeded r = (case r of Inl err \<Rightarrow> False | Inr v \<Rightarrow> True)"

definition laterMade :: "'g extern \<Rightarrow> 'g world \<Rightarrow> 'g Builder \<Rightarrow> string \<Rightarrow> bool" where
  "laterMade x w b tmpDir =
     (list_all (\<lambda>bp. case buildpackLayer x w b tmpDir bp of Ok made \<Rightarrow> True | Err err \<Rightarrow> False | Panic \<Rightarrow> False)
        (additionalBuildpacks b)
      \<and> (if replaceOrder b then succeeded (orderLayer w b tmpDir) else True)
      \<and> succeeded (stackLayer w b tmpDir)
      \<and> succeeded (jsonMarshal w (metadata b)))"

definition allMade :: "'g extern \<Rightarrow> 'g world \<Rightarrow> 'g Builder \<Rightarrow> string \<Rightarrow> bool" where
  "allMade x w b tmpDir =
     (succeeded (defaultDirsLayer w b tmpDir)
      \<and> succeeded (envLayer w tmpDir (env b))
      \<and> (case lifecycle b of None \<Rightarrow> True | Some l \<Rightarrow> succeeded (lifecycleLayer w l tmpDir))
      \<and> laterMade x w b tmpDir)"

text \<open>The same sequence by the names of the operations alone.\<close>

datatype op_name = LayerAt string | LabelNamed string | WorkingDirAt string | CommitImage

fun opName :: "img_op \<Rightarrow> op_name" where
  "opName (AddLayer path file) = LayerAt path"
| "opName (SetLabel name val) = LabelNamed name"
| "opName (SetWorkingDir dir) = WorkingDirAt dir"
| "opName Commit = CommitImage"

definition finishNames :: "'g extern \<Rightarrow> op_name list" where
  "finishNames x = [LabelNamed (MetadataLabel x), WorkingDirAt layersDir, CommitImage]"

definition buildpackNames :: "'g extern \<Rightarrow> string \<Rightarrow> Blob Buildpack list \<Rightarrow> op_name list" where
  "buildpackNames x tmpDir bps =
     map (\<lambda>bp. LayerAt (Join [tmpDir, EscapedID x bp @ ''.'' @ Version (Info bp) @ ''.tar''])) bps"

definition orderNames :: "'g extern \<Rightarrow> 'g Builder \<Rightarrow> string \<Rightarrow> op_name list" where
  "orderNames x b tmpDir =
     (if replaceOrder b then [LayerAt (Join [tmpDir, ''order.tar''])] else [])
     @ LayerAt (Join [tmpDir, ''stack.tar'']) # finishNames x"

definition expectedOps :: "'g extern \<Rightarrow> 'g Builder \<Rightarrow> string \<Rightarrow> op_name list" where
  "expectedOps x b tmpDir =
     [LayerAt (Join [tmpDir, ''dirs.tar'']), LayerAt (Join [tmpDir, ''env.tar''])]
     @ (case lifecycle b of None \<Rightarrow> [] | Some l \<Rightarrow> [LayerAt (Join [tmpDir, ''lifecycle.tar''])])
     @ buildpackNames x tmpDir (additionalBuildpacks b)
     @ orderNames x b tmpDir"

text \<open>
  A run that went from the log \<open>ops\<close> to the log \<open>ops'\<close> and ended in \<open>out\<close> is in
  sequence with the expected names when the names of the new operations are a
  prefix of them, all of them if the run ended well, and when the commit, if it
  is among the new operations, is the last of them, comes after all the others,
  and decides how the run ended.
\<close>

definition inSequence :: "'g world \<Rightarrow> img_op list \<Rightarrow> img_op list \<Rightarrow> unit result \<Rightarrow> op_name list \<Rightarrow> bool" where
  "inSequence w ops ops' out expected =
     (\<exists>new. ops' = ops @ new
        \<and> prefix (map opName new) expected
        \<and> (out = Ok () \<longrightarrow> map opName new = expected)
        \<and> (Commit \<in> set new \<longrightarrow>
              map opName new = expected
            \<and> (\<exists>before. ops' = before @ [Commit]
                  \<and> out = (case imageFails w before Commit of None \<Rightarrow> Ok () | Some err \<Rightarrow> Err err))))"

section \<open>The order document\<close>

text \<open>
  The document \<open>orderLayer\<close> encodes for a lifecycle that is not older than 0.4.0
  is the struct \<open>orderTOML\<close>. The encoder and the decoder (BurntSushi/toml) are
  outside the package; what the package fixes is the tree of tables, arrays and
  values its struct tags give: \<open>order\<close> for the entries, \<open>group\<close> for the refs of
  an entry, \<open>optional,omitempty\<close> for the flag, which is written only when set,
  and \<open>id\<close> and \<open>version\<close> for the embedded identity (the shape
  \<open>{order: [{group: [{id, version, optional?}]}]}\<close> of the interface description;
  the tags of \<open>BuildpackInfo\<close> are in a file that is not at hand). Decoding
  into a struct gives a field whose key is absent its zero value, ignores other
  keys, and fails on a value of the wrong kind.
\<close>

datatype toml = TString string | TBool bool | TArray "toml list" | TTable "(string \<times> toml) list"

definition encodeRef :: "BuildpackRef \<Rightarrow> toml" where
  "encodeRef r =
     TTable ([(''id'', TString (ID r)), (''version'', TString (Version r))]
             @ (if Optional r then [(''optional'', TBool True)] else []))"

definition encodeEntry :: "OrderEntry \<Rightarrow> toml" where
  "encodeEntry e = TTable [(''group'', TArray (map encodeRef (Group e)))]"

definition encodeOrderTOML :: "Order \<Rightarrow> toml" where
  "encodeOrderTOML ord = TTable [(''order'', TArray (map encodeEntry ord))]"

definition decodeString :: "toml option \<Rightarrow> string option" where
  "decodeString v = (case v of None \<Rightarrow> Some [] | Some (TString s) \<Rightarrow> Some s | Some other \<Rightarrow> None)"

definition decodeBool :: "toml option \<Rightarrow> bool option" where
  "decodeBool v = (case v of None \<Rightarrow> Some False | Some (TBool f) \<Rightarrow> Some f | Some other \<Rightarrow> None)"

fun decodeAll :: "('a \<Rightarrow> 'b option) \<Rightarrow> 'a list \<Rightarrow> 'b list option" where
  "decodeAll f [] = Some []"
| "decodeAll f (v # vs) =
     (case f v of
        None \<Rightarrow> None
      | Some y \<Rightarrow> (case decodeAll f vs of None \<Rightarrow> None | Some ys \<Rightarrow> Some (y # ys)))"

definition decodeArray :: "(toml \<Rightarrow> 'b option) \<Rightarrow> toml option \<Rightarrow> 'b list option" where
  "decodeArray f v = (case v of None \<Rightarrow> Some [] | Some (TArray vs) \<Rightarrow> decodeAll f vs | Some other \<Rightarrow> None)"

definition decodeRef :: "toml \<Rightarrow> BuildpackRef option" where
  "decodeRef v =
     (case v of
        TTable kvs \<Rightarrow>
          (case (decodeString (map_of kvs ''id''), decodeString (map_of kvs ''version''),
                 decodeBool (map_of kvs ''optional'')) of
             (Some i, Some ver, Some opt) \<Rightarrow> Some \<lparr>ID = i, Version = ver, Optional = opt\<rparr>
           | other \<Rightarrow> None)
      | other \<Rightarrow> None)"

definition decodeEntry :: "toml \<Rightarrow> OrderEntry option" where
  "decodeEntry v =
     (case v of
        TTable kvs \<Rightarrow>
          (case decodeArray decodeRef (map_of kvs ''group'') of
             Some refs \<Rightarrow> Some \<lparr>Group = refs\<rparr>
           | None \<Rightarrow> None)
      | other \<Rightarrow> None)"

definition decodeOrderTOML :: "toml \<Rightarrow> Order option" where
  "decodeOrderTOML v =
     (case v of
        TTable kvs \<Rightarrow> decodeArray decodeEntry (map_of kvs ''order'')
      | other \<Rightarrow> None)"

section \<open>Concrete inputs\<close>

subsection \<open>Order resolution\<close>

definition knownX1 :: BuildpackMetadata where
  "knownX1 = \<lparr>ID = ''x'', Version = ''1.0'', Latest = False\<rparr>"

definition knownX2 :: BuildpackMetadata where
  "knownX2 = \<lparr>ID = ''x'', Version = ''2.0'', Latest = False\<rparr>"

definition refX :: "string \<Rightarrow> BuildpackRef" where
  "refX v = \<lparr>ID = ''x'', Version = v, Optional = False\<rparr>"

subsection \<open>Graph validation\<close>

definition refTo :: "string \<Rightarrow> string \<Rightarrow> BuildpackRef" where
  "refTo i v = \<lparr>ID = i, Version = v, Optional = False\<rparr>"

definition leafA :: "unit Buildpack" where
  "leafA = \<lparr>Info = \<lparr>ID = ''a'', Version = ''1''\<rparr>, Order = [], Stacks = [''s''], Blob = ()\<rparr>"

definition bareY :: "unit Buildpack" where
  "bareY = \<lparr>Info = \<lparr>ID = ''y'', Version = ''1.0''\<rparr>, Order = [], Stacks = [], Blob = ()\<rparr>"

definition metaM :: "unit Buildpack" where
  "metaM = \<lparr>Info = \<lparr>ID = ''m'', Version = ''1''\<rparr>,
            Order = [\<lparr>Group = [refTo ''a'' ''1'']\<rparr>], Stacks = [], Blob = ()\<rparr>"

definition bothZ :: "unit Buildpack" where
  "bothZ = \<lparr>Info = \<lparr>ID = ''z'', Version = ''1''\<rparr>,
            Order = [\<lparr>Group = [refTo ''a'' ''1'']\<rparr>], Stacks = [''s''], Blob = ()\<rparr>"

text \<open>A ref and a buildpack with different identities and the same key \<open>a@b@c\<close>.\<close>

definition metaC :: "unit Buildpack" where
  "metaC = \<lparr>Info = \<lparr>ID = ''m'', Version = ''1''\<rparr>,
            Order = [\<lparr>Group = [refTo ''a@b'' ''c'']\<rparr>], Stacks = [], Blob = ()\<rparr>"

definition leafC :: "unit Buildpack" where
  "leafC = \<lparr>Info = \<lparr>ID = ''a'', Version = ''b@c''\<rparr>, Order = [], Stacks = [''s''], Blob = ()\<rparr>"

subsection \<open>Lifecycle blobs\<close>

text \<open>
  Two lifecycle archives with every required executable but \<open>exporter\<close>, the
  second with a descriptor entry.
\<close>

definition fileHeader :: "string \<Rightarrow> Header" where
  "fileHeader path =
     \<lparr>Typeflag = TypeZero, Name = path, Linkname = [], Size = 0, Mode = mode0755,
      Uid = 0, Gid = 0, ModTime = 0\<rparr>"

definition withoutExporter :: Blob where
  "withoutExporter =
     Inr \<lparr>entries = map (\<lambda>binary. (fileHeader (''lifecycle/'' @ binary), Inr ''#!''))
                      [''detector'', ''restorer'', ''analyzer'', ''builder'', ''cacher'', ''launcher''],
          broken = None\<rparr>"

definition describedWithoutExporter :: Blob where
  "describedWithoutExporter =
     Inr \<lparr>entries = (fileHeader ''lifecycle.toml'', Inr ''[lifecycle]'')
                    # map (\<lambda>binary. (fileHeader (''lifecycle/'' @ binary), Inr ''#!''))
                        [''detector'', ''restorer'', ''analyzer'', ''builder'', ''cacher'', ''launcher''],
          broken = None\<rparr>"

subsection \<open>Builders and their collaborators\<close>

text \<open>
  \<open>processMetadata\<close> is a parameter. In the examples it is what the package
  makes of it: every buildpack of the metadata whose id no other buildpack of the
  list has is marked as the latest, and nothing else of the metadata changes.
\<close>

definition markLatest :: "'g Metadata \<Rightarrow> 'g Metadata \<times> error option" where
  "markLatest md =
     (md\<lparr>Buildpacks :=
          map (\<lambda>bp. if length (filter (\<lambda>bp2. ID bp = ID bp2) (Buildpacks md)) = 1
                    then bp\<lparr>Latest := True\<rparr> else bp)
            (Buildpacks md)\<rparr>,
      None)"

text \<open>
  Collaborators that never fail. The groups are the order itself, the escaped id
  is the id, the metadata is processed by \<open>markLatest\<close>, and the encoder answers
  with the name of the top-level key of what it is given.
\<close>

definition plainExtern :: "Order extern" where
  "plainExtern =
     \<lparr>processMetadata = markLatest, ToV1Order = (\<lambda>ord. ord),
      EscapedID = (\<lambda>bp. ID (Info bp)),
      MetadataLabel = ''io.buildpacks.builder.metadata''\<rparr>"

definition quietWorld :: "Order world" where
  "quietWorld =
     \<lparr>TempDir = Inr ''/scratch'', Create = (\<lambda>path. None), WriteHeader = (\<lambda>h. None),
      Write = (\<lambda>buf. None), Now = 0,
      tomlEncode = (\<lambda>d. case d of V1OrderTOML g \<Rightarrow> Inr ''groups'' | OrderTOML ord \<Rightarrow> Inr ''order''
                              | StackTOML s \<Rightarrow> Inr ''run-image''),
      CreateSingleFileTar = (\<lambda>tarPath path txt. None), jsonMarshal = (\<lambda>md. Inr ''{}''),
      imageFails = (\<lambda>ops op. None)\<rparr>"

text \<open>The builder \<open>New\<close> makes of an image without a metadata label.\<close>

definition freshBuilder :: "Order Builder" where
  "freshBuilder =
     \<lparr>lifecycle = None, additionalBuildpacks = [],
      metadata = \<lparr>Description = [], Buildpacks = [], Groups = [],
                  Stack = \<lparr>RunImage = \<lparr>Image = [], Mirrors = []\<rparr>\<rparr>,
                  Lifecycle = \<lparr>LifecycleVersion = None,
                               MAPI = \<lparr>PlatformVersion = [], BuildpackVersion = []\<rparr>\<rparr>\<rparr>,
      env = [], UID = 1000, GID = 1000, StackID = ''s'', replaceOrder = False, order = []\<rparr>"

text \<open>
  A buildpack \<open>a@1\<close> whose archive holds \<open>./cnb/detect\<close>, the version \<open>a@2\<close> of
  it, and one whose blob does not open.
\<close>

definition readableA :: "Blob Buildpack" where
  "readableA =
     \<lparr>Info = \<lparr>ID = ''a'', Version = ''1''\<rparr>, Order = [], Stacks = [''s''],
      Blob = Inr \<lparr>entries = [(fileHeader ''./cnb/detect'', Inr ''#!'')], broken = None\<rparr>\<rparr>"


definition unreadableA :: "Blob Buildpack" where
  "unreadableA = readableA\<lparr>Blob := Inl (External ''open failed'')\<rparr>"

text \<open>A lifecycle with the default descriptor, version 0.3.0, and the versions 0.3.9 and 0.4.0.\<close>

definition lifecycle_0_3_0 :: lifecycle where
  "lifecycle_0_3_0 = \<lparr>descriptor = DefaultLifecycleDescriptor, LBlob = withoutExporter\<rparr>"



text \<open>
  The fresh builder after \<open>SetLifecycle\<close> with the 0.3.0 lifecycle, \<open>AddBuildpack\<close>
  of \<open>a@1\<close> and \<open>SetOrder\<close> of one group that refers to \<open>a\<close>; and the fresh
  builder after \<open>AddBuildpack\<close> of the buildpack whose blob does not open.
\<close>

definition legacyFresh :: "Order Builder" where
  "legacyFresh =
     SetOrder (AddBuildpack (SetLifecycle freshBuilder lifecycle_0_3_0) readableA)
       [\<lparr>Group = [refTo ''a'' '''']\<rparr>]"

definition withUnreadable :: "Order Builder" where
  "withUnreadable = AddBuildpack freshBuilder unreadableA"

text \<open>
  What \<open>buildpackLayer\<close> writes for \<open>a@1\<close> before it looks at the version of the
  lifecycle (Scenario D: the entry \<open>./cnb/detect\<close> under \<open>/buildpacks/a/1\<close>, owned
  by the builder's uid and gid).
\<close>

definition embeddedA :: "tar_write list" where
  "embeddedA =
     [WroteHeader (dirHeader ''/buildpacks/a'' 0), WroteHeader (dirHeader ''/buildpacks/a/1'' 0),
      WroteHeader ((fileHeader ''/buildpacks/a/1/cnb/detect'')\<lparr>Uid := 1000, Gid := 1000\<rparr>),
      WroteData ''#!'']"





text \<open>The same builder with groups left over from an earlier order.\<close>

definition staleLegacy :: "Order Builder" where
  "staleLegacy = legacyFresh\<lparr>metadata := (metadata legacyFresh)\<lparr>Groups := [\<lparr>Group = [refTo ''old'' ''0'']\<rparr>]\<rparr>\<rparr>"

section \<open>Properties of order resolution\<close>

lemma embeddedInfo_fields [simp]:
  "ID (embeddedInfo bp) = ID bp" "Version (embeddedInfo bp) = Version bp"
  by (simp_all add: embeddedInfo_def)

lemma matchingBps_filter: "matchingBps bps rid = map embeddedInfo (filter (\<lambda>bp. rid = ID bp) bps)"
  by (induction bps) auto

lemma hasBuildpackWithVersion_iff:
  "hasBuildpackWithVersion bps v \<longleftrightarrow> (\<exists>bp\<in>set bps. Version bp = v)"
  by (induction bps) auto

lemma hasBuildpackWithVersion_matching:
  "hasBuildpackWithVersion (matchingBps bps rid) v \<longleftrightarrow> (\<exists>bp\<in>set bps. ID bp = rid \<and> Version bp = v)"
  by (auto simp: hasBuildpackWithVersion_iff matchingBps_filter)

lemma processRef_none: "matchingBps bps (ID r) = [] \<Longrightarrow> processRef bps r = Inl (NoVersionsFound (ID r))"
  by (simp add: processRef_def)

lemma processRef_ambiguous:
  "Version r = [] \<Longrightarrow> length (matchingBps bps (ID r)) \<ge> 2 \<Longrightarrow> processRef bps r = Inl (MultipleVersions (ID r))"
  by (auto simp: processRef_def Let_def)

lemma processRef_single:
  "Version r = [] \<Longrightarrow> matchingBps bps (ID r) = [m] \<Longrightarrow> processRef bps r = Inr (r\<lparr>Version := Version m\<rparr>)"
  by (simp add: processRef_def Let_def)

lemma processRef_version_missing:
  "Version r \<noteq> [] \<Longrightarrow> matchingBps bps (ID r) \<noteq> [] \<Longrightarrow>
   \<not> (\<exists>bp\<in>set bps. ID bp = ID r \<and> Version bp = Version r) \<Longrightarrow>
   processRef bps r = Inl (VersionNotFound (ID r) (Version r))"
  by (simp add: processRef_def Let_def hasBuildpackWithVersion_matching)

lemma processRef_version_present:
  "Version r \<noteq> [] \<Longrightarrow> (\<exists>bp\<in>set bps. ID bp = ID r \<and> Version bp = Version r) \<Longrightarrow>
   processRef bps r = Inr r"
proof -
  assume v: "Version r \<noteq> []" and ex: "\<exists>bp\<in>set bps. ID bp = ID r \<and> Version bp = Version r"
  from ex obtain bp where "bp \<in> set bps" "ID r = ID bp" by auto
  then have "embeddedInfo bp \<in> set (matchingBps bps (ID r))" by (simp add: matchingBps_filter)
  then have ne: "matchingBps bps (ID r) \<noteq> []" by auto
  from ex have "hasBuildpackWithVersion (matchingBps bps (ID r)) (Version r)"
    by (simp add: hasBuildpackWithVersion_matching)
  with v ne show ?thesis by (simp add: processRef_def Let_def)
qed

lemma processGroup_append:
  "processGroup bps (xs @ ys) =
     (case processGroup bps xs of
        (xs', Some e) \<Rightarrow> (xs' @ ys, Some e)
      | (xs', None) \<Rightarrow> (case processGroup bps ys of (ys', res) \<Rightarrow> (xs' @ ys', res)))"
  by (induction xs) (auto split: sum.splits prod.splits option.splits)

lemma processOrder_flat:
  "refsOf (fst (processOrder bps ord)) = fst (processGroup bps (refsOf ord)) \<and>
   snd (processOrder bps ord) = snd (processGroup bps (refsOf ord))"
  by (induction ord) (auto simp: refsOf_def processGroup_append split: prod.splits option.splits)

lemma processGroup_prefix:
  "\<forall>p\<in>set pre. \<exists>p'. processRef bps p = Inr p' \<Longrightarrow>
   processGroup bps (pre @ r # post) =
     (case processRef bps r of
        Inl e \<Rightarrow> (map (\<lambda>p. projr (processRef bps p)) pre @ r # post, Some e)
      | Inr r' \<Rightarrow> (map (\<lambda>p. projr (processRef bps p)) pre @ r' # fst (processGroup bps post),
                   snd (processGroup bps post)))"
  by (induction pre) (auto split: sum.splits prod.splits option.splits)

text \<open>
  Claim C1, as amended. Take any ref \<open>r\<close> of any group of the order such that the
  refs visited before it resolve. If no known buildpack has the id of \<open>r\<close>,
  \<open>processOrder\<close> fails with the "no versions ... found" error naming the id. If
  the version of \<open>r\<close> is empty and two or more known buildpacks have its id, it
  fails with the "multiple versions" error naming the id. If the version of \<open>r\<close>
  is empty and exactly one known buildpack has its id, the version of \<open>r\<close> is set
  in place to that buildpack's version. If the version of \<open>r\<close> is not empty, at
  least one known buildpack has its id and none has its id and version, it fails
  with the "with version ... not found" error naming the id and the version.
\<close>

theorem processOrder_resolves_each_ref:
  assumes visit: "refsOf ord = pre @ r # post"
      and earlier: "\<forall>p\<in>set pre. \<exists>p'. processRef buildpacks p = Inr p'"
  shows "(filter (\<lambda>bp. ID bp = ID r) buildpacks = [] \<longrightarrow>
            snd (processOrder buildpacks ord) = Some (NoVersionsFound (ID r)))
       \<and> (Version r = [] \<and> length (filter (\<lambda>bp. ID bp = ID r) buildpacks) \<ge> 2 \<longrightarrow>
            snd (processOrder buildpacks ord) = Some (MultipleVersions (ID r)))
       \<and> (\<forall>m. Version r = [] \<and> filter (\<lambda>bp. ID bp = ID r) buildpacks = [m] \<longrightarrow>
            refsOf (fst (processOrder buildpacks ord)) ! length pre = r\<lparr>Version := Version m\<rparr>)
       \<and> (Version r \<noteq> [] \<and> filter (\<lambda>bp. ID bp = ID r) buildpacks \<noteq> []
            \<and> \<not> (\<exists>bp\<in>set buildpacks. ID bp = ID r \<and> Version bp = Version r) \<longrightarrow>
            snd (processOrder buildpacks ord) = Some (VersionNotFound (ID r) (Version r)))"
proof -
  have m: "matchingBps buildpacks (ID r) = map embeddedInfo (filter (\<lambda>bp. ID bp = ID r) buildpacks)"
    by (simp add: matchingBps_filter eq_commute)
  have flat: "processGroup buildpacks (refsOf ord) =
     (case processRef buildpacks r of
        Inl e \<Rightarrow> (map (\<lambda>p. projr (processRef buildpacks p)) pre @ r # post, Some e)
      | Inr r' \<Rightarrow> (map (\<lambda>p. projr (processRef buildpacks p)) pre @ r' # fst (processGroup buildpacks post),
                   snd (processGroup buildpacks post)))"
    unfolding visit by (rule processGroup_prefix [OF earlier])
  have err: "snd (processOrder buildpacks ord) = Some e" if "processRef buildpacks r = Inl e" for e
    using that flat processOrder_flat [of buildpacks ord] by simp
  have res: "refsOf (fst (processOrder buildpacks ord)) ! length pre = r'"
    if "processRef buildpacks r = Inr r'" for r'
    using that flat processOrder_flat [of buildpacks ord]
    by (simp add: nth_append)
  show ?thesis
  proof (intro conjI impI allI)
    assume "filter (\<lambda>bp. ID bp = ID r) buildpacks = []"
    then show "snd (processOrder buildpacks ord) = Some (NoVersionsFound (ID r))"
      using m by (intro err processRef_none) simp
  next
    assume "Version r = [] \<and> length (filter (\<lambda>bp. ID bp = ID r) buildpacks) \<ge> 2"
    then show "snd (processOrder buildpacks ord) = Some (MultipleVersions (ID r))"
      using m by (intro err processRef_ambiguous) simp_all
  next
    fix m' assume "Version r = [] \<and> filter (\<lambda>bp. ID bp = ID r) buildpacks = [m']"
    then have "processRef buildpacks r = Inr (r\<lparr>Version := Version m'\<rparr>)"
      using m processRef_single [of r buildpacks "embeddedInfo m'"] by simp
    then show "refsOf (fst (processOrder buildpacks ord)) ! length pre = r\<lparr>Version := Version m'\<rparr>"
      by (rule res)
  next
    assume "Version r \<noteq> [] \<and> filter (\<lambda>bp. ID bp = ID r) buildpacks \<noteq> []
            \<and> \<not> (\<exists>bp\<in>set buildpacks. ID bp = ID r \<and> Version bp = Version r)"
    then show "snd (processOrder buildpacks ord) = Some (VersionNotFound (ID r) (Version r))"
      using m by (intro err processRef_version_missing) simp_all
  qed
qed


text \<open>
  Witness for C1: an unknown id; Scenario B (\<open>x@1.0\<close> and \<open>x@2.0\<close> known, \<open>x\<close>
  referenced without a version); Scenario A (only \<open>x@1.0\<close> known); and \<open>x@2.0\<close>
  referenced where only \<open>x@1.0\<close> is known.
\<close>

theorem processOrder_resolves_each_ref_witness:
  "snd (processOrder [] [\<lparr>Group = [refX '''']\<rparr>]) = Some (NoVersionsFound ''x'')
   \<and> snd (processOrder [knownX1, knownX2] [\<lparr>Group = [refX '''']\<rparr>]) = Some (MultipleVersions ''x'')
   \<and> refsOf (fst (processOrder [knownX1] [\<lparr>Group = [refX '''']\<rparr>])) ! 0 = refX ''1.0''
   \<and> snd (processOrder [knownX1] [\<lparr>Group = [refX ''2.0'']\<rparr>]) = Some (VersionNotFound ''x'' ''2.0'')"
proof -
  have v: "refsOf [\<lparr>Group = [refX s]\<rparr>] = [] @ refX s # []" for s
    by (simp add: refsOf_def)
  have e: "\<forall>p\<in>set []. \<exists>p'. processRef bps p = Inr p'" for bps
    by simp
  show ?thesis
    using processOrder_resolves_each_ref [OF v e, of "''''" "[]"]
      processOrder_resolves_each_ref [OF v e, of "''''" "[knownX1, knownX2]"]
      processOrder_resolves_each_ref [OF v e, of "''''" "[knownX1]"]
      processOrder_resolves_each_ref [OF v e, of "''2.0''" "[knownX1]"]
    by (simp add: refX_def knownX1_def knownX2_def)
qed

text \<open>
  Counterexample to C1 as stated. The ref \<open>x\<close> with version \<open>1.0\<close> has a version
  that is not empty, and no known buildpack has that id and version, since none
  is known at all; the check for an unknown id comes first, so the error names
  the id only.
\<close>

theorem processOrder_unknown_id_with_version_counterexample:
  "Version (refX ''1.0'') \<noteq> []
   \<and> snd (processOrder [] [\<lparr>Group = [refX ''1.0'']\<rparr>]) = Some (NoVersionsFound ''x'')
   \<and> snd (processOrder [] [\<lparr>Group = [refX ''1.0'']\<rparr>])
       \<noteq> Some (VersionNotFound (ID (refX ''1.0'')) (Version (refX ''1.0'')))"
  by (simp add: refX_def processRef_def)

section \<open>Properties of graph and stack validation\<close>

lemma buildLookup_dom:
  "dom (buildLookup bps m) = dom m \<union> (\<lambda>bp. idAtVersion (Info bp)) ` set bps"
  by (induction bps arbitrary: m) auto

lemma buildLookup_None_iff:
  "buildLookup bps Map.empty k = None \<longleftrightarrow> k \<notin> (\<lambda>bp. idAtVersion (Info bp)) ` set bps"
proof -
  have "k \<in> dom (buildLookup bps Map.empty) \<longleftrightarrow> k \<in> (\<lambda>bp. idAtVersion (Info bp)) ` set bps"
    by (simp add: buildLookup_dom)
  then show ?thesis by (cases "buildLookup bps Map.empty k") auto
qed

lemma checkGroup_None_iff:
  "checkGroup L rs = None \<longleftrightarrow> (\<forall>r\<in>set rs. L (idAtVersion r) \<noteq> None)"
  by (induction rs) (auto split: option.splits)

lemma checkGroup_append:
  "checkGroup L (xs @ ys) = (case checkGroup L xs of Some e \<Rightarrow> Some e | None \<Rightarrow> checkGroup L ys)"
  by (induction xs) (auto split: option.splits)

lemma checkOrder_flat: "checkOrder L ord = checkGroup L (refsOf ord)"
  by (induction ord) (auto simp: refsOf_def checkGroup_append split: option.splits)

lemma checkGroup_first_missing:
  "\<forall>p\<in>set pre. L (idAtVersion p) \<noteq> None \<Longrightarrow> L (idAtVersion r) = None \<Longrightarrow>
   checkGroup L (pre @ r # post) = Some (BuildpackNotFound (idAtVersion r))"
  by (induction pre) (auto split: option.splits)

lemma validateLoop_None_iff:
  "validateLoop sid L bps = None \<longleftrightarrow> (\<forall>bp\<in>set bps. validateBuildpack sid L bp = None)"
  by (induction bps) (auto split: option.splits)

lemma validateLoop_first:
  "\<forall>p\<in>set pre. validateBuildpack sid L p = None \<Longrightarrow>
   validateLoop sid L (pre @ bp # post) =
     (case validateBuildpack sid L bp of Some e \<Rightarrow> Some e | None \<Rightarrow> validateLoop sid L post)"
  by (induction pre) (auto split: option.splits)

lemma validateBuildpack_None_xor:
  "validateBuildpack sid L bp = None \<Longrightarrow> (Order bp \<noteq> []) \<noteq> (Stacks bp \<noteq> [])"
  by (auto simp: validateBuildpack_def Suc_le_eq split: if_splits)

lemma validateBuildpack_neither:
  "Order bp = [] \<Longrightarrow> Stacks bp = [] \<Longrightarrow>
   validateBuildpack sid L bp = Some (NeitherStacksNorOrder (idAtVersion (Info bp)))"
  by (simp add: validateBuildpack_def)

lemma validateBuildpack_both:
  "Order bp \<noteq> [] \<Longrightarrow> Stacks bp \<noteq> [] \<Longrightarrow>
   validateBuildpack sid L bp = Some (BothStacksAndOrder (idAtVersion (Info bp)))"
  by (simp add: validateBuildpack_def Suc_le_eq)

lemma validateBuildpack_nested:
  "Order bp \<noteq> [] \<Longrightarrow> Stacks bp = [] \<Longrightarrow>
   validateBuildpack sid L bp = checkGroup L (refsOf (Order bp))"
  by (simp add: validateBuildpack_def checkOrder_flat Suc_le_eq)

text \<open>
  Claim C3. \<open>validateBuildpacks\<close> succeeds only if every buildpack of the list has
  exactly one of a non-empty nested order and a non-empty stack list. The loop
  stops at the first buildpack it rejects: when the buildpacks before it pass their
  own checks, a buildpack with neither makes the call fail with the
  "must have either stacks or an order defined" error for its \<open>id@version\<close>, and a
  buildpack with both makes it fail with the "cannot have both stacks and an
  order defined" error, which is a different error.
\<close>

theorem validateBuildpacks_stacks_xor_order:
  "(validateBuildpacks stackID bps = None \<longrightarrow>
      (\<forall>bp\<in>set bps. (Order bp \<noteq> []) \<noteq> (Stacks bp \<noteq> [])))
   \<and> (\<forall>pre bp post.
        bps = pre @ bp # post
        \<and> (\<forall>p\<in>set pre. validateBuildpack stackID (buildLookup bps Map.empty) p = None)
        \<and> Order bp = [] \<and> Stacks bp = [] \<longrightarrow>
        validateBuildpacks stackID bps = Some (NeitherStacksNorOrder (idAtVersion (Info bp))))
   \<and> (\<forall>pre bp post.
        bps = pre @ bp # post
        \<and> (\<forall>p\<in>set pre. validateBuildpack stackID (buildLookup bps Map.empty) p = None)
        \<and> Order bp \<noteq> [] \<and> Stacks bp \<noteq> [] \<longrightarrow>
        validateBuildpacks stackID bps = Some (BothStacksAndOrder (idAtVersion (Info bp))))
   \<and> (\<forall>k k'. NeitherStacksNorOrder k \<noteq> BothStacksAndOrder k')"
proof (intro conjI impI allI)
  assume "validateBuildpacks stackID bps = None"
  then show "\<forall>bp\<in>set bps. (Order bp \<noteq> []) \<noteq> (Stacks bp \<noteq> [])"
    unfolding validateBuildpacks_def validateLoop_None_iff
    using validateBuildpack_None_xor by blast
next
  fix pre bp post
  assume a: "bps = pre @ bp # post
        \<and> (\<forall>p\<in>set pre. validateBuildpack stackID (buildLookup bps Map.empty) p = None)
        \<and> Order bp = [] \<and> Stacks bp = []"
  note p = a [THEN conjunct2, THEN conjunct1]
  note n = a [THEN conjunct2, THEN conjunct2, THEN conjunct1]
    a [THEN conjunct2, THEN conjunct2, THEN conjunct2]
  have "validateLoop stackID (buildLookup bps Map.empty) (pre @ bp # post)
      = Some (NeitherStacksNorOrder (idAtVersion (Info bp)))"
    by (simp add: validateLoop_first [OF p] validateBuildpack_neither [OF n])
  then show "validateBuildpacks stackID bps = Some (NeitherStacksNorOrder (idAtVersion (Info bp)))"
    unfolding validateBuildpacks_def by (subst (2) a [THEN conjunct1])
next
  fix pre bp post
  assume a: "bps = pre @ bp # post
        \<and> (\<forall>p\<in>set pre. validateBuildpack stackID (buildLookup bps Map.empty) p = None)
        \<and> Order bp \<noteq> [] \<and> Stacks bp \<noteq> []"
  note p = a [THEN conjunct2, THEN conjunct1]
  note n = a [THEN conjunct2, THEN conjunct2, THEN conjunct1]
    a [THEN conjunct2, THEN conjunct2, THEN conjunct2]
  have "validateLoop stackID (buildLookup bps Map.empty) (pre @ bp # post)
      = Some (BothStacksAndOrder (idAtVersion (Info bp)))"
    by (simp add: validateLoop_first [OF p] validateBuildpack_both [OF n])
  then show "validateBuildpacks stackID bps = Some (BothStacksAndOrder (idAtVersion (Info bp)))"
    unfolding validateBuildpacks_def by (subst (2) a [THEN conjunct1])
next
  fix k k' show "NeitherStacksNorOrder k \<noteq> BothStacksAndOrder k'" by simp
qed


text \<open>Witness for C3: a passing list, Scenario C (\<open>y@1.0\<close> with neither), and a buildpack with both.\<close>

theorem validateBuildpacks_stacks_xor_order_witness:
  "validateBuildpacks ''s'' [leafA, metaM] = None
   \<and> (Order leafA \<noteq> []) \<noteq> (Stacks leafA \<noteq> [])
   \<and> (Order metaM \<noteq> []) \<noteq> (Stacks metaM \<noteq> [])
   \<and> validateBuildpacks ''s'' [leafA, bareY] = Some (NeitherStacksNorOrder ''y@1.0'')
   \<and> validateBuildpacks ''s'' [leafA, bothZ] = Some (BothStacksAndOrder ''z@1'')"
proof -
  note defs = validateBuildpacks_def validateBuildpack_def SupportsStack_def idAtVersion_def
    leafA_def metaM_def bareY_def bothZ_def refTo_def
  have pass: "validateBuildpacks ''s'' [leafA, metaM] = None"
    by (simp add: defs)
  have xors: "\<forall>bp\<in>set [leafA, metaM]. (Order bp \<noteq> []) \<noteq> (Stacks bp \<noteq> [])"
    using validateBuildpacks_stacks_xor_order
      [where stackID = "''s''" and bps = "[leafA, metaM]", THEN conjunct1, THEN mp, OF pass] .
  have h1: "[leafA, bareY] = [leafA] @ bareY # []
      \<and> (\<forall>p\<in>set [leafA]. validateBuildpack ''s'' (buildLookup [leafA, bareY] Map.empty) p = None)
      \<and> Order bareY = [] \<and> Stacks bareY = []"
    by (simp add: defs)
  have neither: "validateBuildpacks ''s'' [leafA, bareY]
      = Some (NeitherStacksNorOrder (idAtVersion (Info bareY)))"
    using validateBuildpacks_stacks_xor_order
      [where stackID = "''s''" and bps = "[leafA, bareY]", THEN conjunct2, THEN conjunct1,
        THEN spec, THEN spec, THEN spec, THEN mp, OF h1] .
  have h2: "[leafA, bothZ] = [leafA] @ bothZ # []
      \<and> (\<forall>p\<in>set [leafA]. validateBuildpack ''s'' (buildLookup [leafA, bothZ] Map.empty) p = None)
      \<and> Order bothZ \<noteq> [] \<and> Stacks bothZ \<noteq> []"
    by (simp add: defs)
  have both: "validateBuildpacks ''s'' [leafA, bothZ]
      = Some (BothStacksAndOrder (idAtVersion (Info bothZ)))"
    using validateBuildpacks_stacks_xor_order
      [where stackID = "''s''" and bps = "[leafA, bothZ]", THEN conjunct2, THEN conjunct2,
        THEN conjunct1, THEN spec, THEN spec, THEN spec, THEN mp, OF h2] .
  from pass xors neither both show ?thesis
    by (simp add: idAtVersion_def bareY_def bothZ_def)
qed

text \<open>
  Claim C4, as amended. \<open>validateBuildpacks\<close> passes a list iff it passes every
  buildpack of the list. A buildpack declaring a nested order passes iff it
  declares no stacks and the key \<open>id@version\<close> of every ref in every group of its
  order is the key \<open>id@version\<close> of some buildpack of the same list (the keys are
  compared as strings, not the identities as pairs). For such a buildpack the
  first ref whose key is absent gives the "not found on the builder" error naming
  that \<open>id@version\<close>.
\<close>

theorem validateBuildpacks_nested_order:
  "(validateBuildpacks stackID bps = None \<longleftrightarrow>
      (\<forall>bp\<in>set bps. validateBuildpack stackID (buildLookup bps Map.empty) bp = None))
   \<and> (Order bp \<noteq> [] \<longrightarrow>
        (validateBuildpack stackID (buildLookup bps Map.empty) bp = None \<longleftrightarrow>
           Stacks bp = []
           \<and> (\<forall>r\<in>set (refsOf (Order bp)). \<exists>b\<in>set bps. idAtVersion r = idAtVersion (Info b))))
   \<and> (\<forall>pre r post.
        Stacks bp = [] \<and> refsOf (Order bp) = pre @ r # post
        \<and> (\<forall>p\<in>set pre. \<exists>b\<in>set bps. idAtVersion p = idAtVersion (Info b))
        \<and> \<not> (\<exists>b\<in>set bps. idAtVersion r = idAtVersion (Info b)) \<longrightarrow>
        validateBuildpack stackID (buildLookup bps Map.empty) bp
          = Some (BuildpackNotFound (idAtVersion r)))"
proof (intro conjI impI allI)
  show "validateBuildpacks stackID bps = None \<longleftrightarrow>
      (\<forall>bp\<in>set bps. validateBuildpack stackID (buildLookup bps Map.empty) bp = None)"
    by (simp add: validateBuildpacks_def validateLoop_None_iff)
next
  assume ne: "Order bp \<noteq> []"
  show "validateBuildpack stackID (buildLookup bps Map.empty) bp = None \<longleftrightarrow>
           Stacks bp = []
           \<and> (\<forall>r\<in>set (refsOf (Order bp)). \<exists>b\<in>set bps. idAtVersion r = idAtVersion (Info b))"
  proof (cases "Stacks bp = []")
    case True
    then show ?thesis
      using ne by (auto simp: validateBuildpack_nested checkGroup_None_iff buildLookup_None_iff)
  next
    case False
    then show ?thesis using ne by (simp add: validateBuildpack_both)
  qed
next
  fix pre r post
  assume a: "Stacks bp = [] \<and> refsOf (Order bp) = pre @ r # post
        \<and> (\<forall>p\<in>set pre. \<exists>b\<in>set bps. idAtVersion p = idAtVersion (Info b))
        \<and> \<not> (\<exists>b\<in>set bps. idAtVersion r = idAtVersion (Info b))"
  then have ne: "Order bp \<noteq> []" by (auto simp: refsOf_def)
  from a have 1: "\<forall>p\<in>set pre. buildLookup bps Map.empty (idAtVersion p) \<noteq> None"
    by (auto simp: buildLookup_None_iff)
  from a have 2: "buildLookup bps Map.empty (idAtVersion r) = None"
    by (auto simp: buildLookup_None_iff)
  from a ne show "validateBuildpack stackID (buildLookup bps Map.empty) bp
          = Some (BuildpackNotFound (idAtVersion r))"
    by (simp add: validateBuildpack_nested checkGroup_first_missing [OF 1 2])
qed

text \<open>
  Witness for C4: the order of \<open>m@1\<close> resolves when \<open>a@1\<close> is embedded with it, and
  taking \<open>a@1\<close> out of the list turns the pass into the "not found" failure.
\<close>

theorem validateBuildpacks_nested_order_witness:
  "validateBuildpacks ''s'' [metaM, leafA] = None
   \<and> validateBuildpack ''s'' (buildLookup [metaM, leafA] Map.empty) metaM = None
   \<and> validateBuildpack ''s'' (buildLookup [metaM] Map.empty) metaM = Some (BuildpackNotFound ''a@1'')
   \<and> validateBuildpacks ''s'' [metaM] \<noteq> None"
proof -
  note defs = refsOf_def idAtVersion_def leafA_def metaM_def refTo_def
  note T1 = validateBuildpacks_nested_order
    [where stackID = "''s''" and bps = "[metaM, leafA]" and bp = metaM]
  note T2 = validateBuildpacks_nested_order
    [where stackID = "''s''" and bps = "[metaM]" and bp = metaM]
  have ne: "Order metaM \<noteq> []"
    by (simp add: metaM_def)
  have resolves: "Stacks metaM = [] \<and> (\<forall>r\<in>set (refsOf (Order metaM)).
      \<exists>b\<in>set [metaM, leafA]. idAtVersion r = idAtVersion (Info b))"
    by (simp add: defs)
  have a: "validateBuildpack ''s'' (buildLookup [metaM, leafA] Map.empty) metaM = None"
    using T1 [THEN conjunct2, THEN conjunct1, THEN mp, OF ne] resolves by blast
  have leaf: "validateBuildpack ''s'' (buildLookup [metaM, leafA] Map.empty) leafA = None"
    by (simp add: validateBuildpack_def SupportsStack_def leafA_def)
  have b: "validateBuildpacks ''s'' [metaM, leafA] = None"
    using T1 [THEN conjunct1] a leaf by simp
  have missing: "Stacks metaM = [] \<and> refsOf (Order metaM) = [] @ refTo ''a'' ''1'' # []
      \<and> (\<forall>p\<in>set []. \<exists>b\<in>set [metaM]. idAtVersion p = idAtVersion (Info b))
      \<and> \<not> (\<exists>b\<in>set [metaM]. idAtVersion (refTo ''a'' ''1'') = idAtVersion (Info b))"
    by (simp add: defs)
  have c: "validateBuildpack ''s'' (buildLookup [metaM] Map.empty) metaM
      = Some (BuildpackNotFound (idAtVersion (refTo ''a'' ''1'')))"
    using T2 [THEN conjunct2, THEN conjunct2, THEN spec, THEN spec, THEN spec, THEN mp, OF missing] .
  have d: "validateBuildpacks ''s'' [metaM] \<noteq> None"
    using T2 [THEN conjunct1] c by simp
  from a b c d show ?thesis
    by (simp add: idAtVersion_def refTo_def)
qed

text \<open>
  Counterexample to C4 as stated. The ref \<open>(a@b, c)\<close> of \<open>metaC\<close> has the identity of
  no buildpack of the list \<open>[metaC, leafC]\<close>, and the list passes, because \<open>leafC\<close>,
  which is \<open>(a, b@c)\<close>, has the same key \<open>a@b@c\<close>. And every ref of \<open>bothZ\<close> has the
  identity of a buildpack of the list \<open>[bothZ, leafA]\<close>, and the list is rejected,
  because \<open>bothZ\<close> declares stacks as well.
\<close>

theorem validateBuildpacks_nested_order_counterexample:
  "validateBuildpacks ''s'' [metaC, leafC] = None
   \<and> refsOf (Order metaC) = [refTo ''a@b'' ''c'']
   \<and> (ID (refTo ''a@b'' ''c''), Version (refTo ''a@b'' ''c'')) \<noteq> (ID (Info metaC), Version (Info metaC))
   \<and> (ID (refTo ''a@b'' ''c''), Version (refTo ''a@b'' ''c'')) \<noteq> (ID (Info leafC), Version (Info leafC))
   \<and> refsOf (Order bothZ) = [refTo ''a'' ''1'']
   \<and> (ID (refTo ''a'' ''1''), Version (refTo ''a'' ''1'')) = (ID (Info leafA), Version (Info leafA))
   \<and> validateBuildpacks ''s'' [bothZ, leafA] = Some (BothStacksAndOrder ''z@1'')"
  by (simp add: validateBuildpacks_def validateBuildpack_def SupportsStack_def idAtVersion_def
      refsOf_def leafA_def metaC_def leafC_def bothZ_def refTo_def)

section \<open>Properties of the lifecycle descriptor validator\<close>

lemma observed_Cons:
  "observed (e # es) binary \<longleftrightarrow> pathMatches (Clean (Name (fst e))) = Some binary \<or> observed es binary"
  by (simp add: observed_def)

lemma scanHeaders_None:
  "scanHeaders es headers binary = None \<longleftrightarrow> headers binary = None \<and> \<not> observed es binary"
proof (induction es arbitrary: headers)
  case Nil
  show ?case by (simp add: observed_def)
next
  case (Cons e es)
  obtain header contents where e: "e = (header, contents)" by (cases e)
  show ?case
  proof (cases "pathMatches (Clean (Name header))")
    case None
    then show ?thesis using Cons.IH [of headers] by (simp add: e observed_Cons)
  next
    case (Some b)
    have step: "scanHeaders (e # es) headers binary = scanHeaders es (headers(b \<mapsto> True)) binary"
      by (simp add: e Some)
    have upd: "(headers(b \<mapsto> True)) binary = None \<longleftrightarrow> b \<noteq> binary \<and> headers binary = None"
      by auto
    have obs: "observed (e # es) binary \<longleftrightarrow> b = binary \<or> observed es binary"
      by (simp add: observed_Cons e Some)
    show ?thesis
      unfolding step obs Cons.IH [of "headers(b \<mapsto> True)"] upd by blast
  qed
qed

lemma findMissing_None_iff:
  "findMissing headers ps = None \<longleftrightarrow> (\<forall>p\<in>set ps. \<not> headers p = None)"
  by (induction ps) (auto split: option.splits)

lemma findMissing_first:
  "\<forall>q\<in>set pre. headers q \<noteq> None \<Longrightarrow> headers p = None \<Longrightarrow>
   findMissing headers (pre @ p # post) = Some (BinaryNotFound p)"
  by (induction pre) (auto split: option.splits)

lemma validateBinaries_None_iff:
  "broken rc = None \<Longrightarrow>
   validateBinaries (Inr rc) = None \<longleftrightarrow> (\<forall>p\<in>set lifecycleBinaries. observed (entries rc) p)"
  by (simp add: validateBinaries_def findMissing_None_iff scanHeaders_None del: not_None_eq)

lemma validateBinaries_first_missing:
  "broken rc = None \<Longrightarrow> lifecycleBinaries = pre @ p # post \<Longrightarrow>
   \<forall>q\<in>set pre. observed (entries rc) q \<Longrightarrow> \<not> observed (entries rc) p \<Longrightarrow>
   validateBinaries (Inr rc) = Some (BinaryNotFound p)"
proof -
  assume eof: "broken rc = None" and split: "lifecycleBinaries = pre @ p # post"
    and seen: "\<forall>q\<in>set pre. observed (entries rc) q" and unseen: "\<not> observed (entries rc) p"
  have "\<forall>q\<in>set pre. scanHeaders (entries rc) Map.empty q \<noteq> None"
    using seen by (simp add: scanHeaders_None del: not_None_eq)
  moreover have "scanHeaders (entries rc) Map.empty p = None"
    using unseen by (simp add: scanHeaders_None)
  ultimately have "findMissing (scanHeaders (entries rc) Map.empty) (pre @ p # post) = Some (BinaryNotFound p)"
    by (rule findMissing_first)
  then show ?thesis by (simp add: validateBinaries_def split eof)
qed

lemma NewLifecycle_described:
  "ReadTarEntry rc ''lifecycle.toml'' = Inr buf \<Longrightarrow> tomlDecode buf = Inr d \<Longrightarrow>
   NewLifecycle tomlDecode (Inr rc) =
     (case validateBinaries (Inr rc) of
        Some err \<Rightarrow> Inl (Wrap err ''validating binaries'')
      | None \<Rightarrow> Inr \<lparr>descriptor = d, LBlob = Inr rc\<rparr>)"
  by (simp add: NewLifecycle_def)

lemma NewLifecycle_not_described:
  "findEntry (entries rc) ''lifecycle.toml'' = None \<Longrightarrow> broken rc = None \<Longrightarrow>
   NewLifecycle tomlDecode (Inr rc) = Inr \<lparr>descriptor = DefaultLifecycleDescriptor, LBlob = Inr rc\<rparr>"
  by (simp add: NewLifecycle_def ReadTarEntry_def)

text \<open>
  What holds of claim C2: when the descriptor entry is there and decodes, and the
  archive reads to its end, construction succeeds iff all seven names are
  observed; when it is absent, construction succeeds whatever the archive holds.
\<close>

lemma NewLifecycle_described_iff:
  assumes "ReadTarEntry rc ''lifecycle.toml'' = Inr buf" and "tomlDecode buf = Inr d"
    and "broken rc = None"
  shows "(\<exists>l. NewLifecycle tomlDecode (Inr rc) = Inr l)
     \<longleftrightarrow> (\<forall>p\<in>set lifecycleBinaries. observed (entries rc) p)"
proof -
  have "NewLifecycle tomlDecode (Inr rc) =
     (case validateBinaries (Inr rc) of
        Some err \<Rightarrow> Inl (Wrap err ''validating binaries'')
      | None \<Rightarrow> Inr \<lparr>descriptor = d, LBlob = Inr rc\<rparr>)"
    using assms(1,2) by (rule NewLifecycle_described)
  then have "(\<exists>l. NewLifecycle tomlDecode (Inr rc) = Inr l) \<longleftrightarrow> validateBinaries (Inr rc) = None"
    by (cases "validateBinaries (Inr rc)") simp_all
  then show ?thesis
    by (simp only: validateBinaries_None_iff [OF assms(3)])
qed

text \<open>
  Claim C2 fails on the code. The archive \<open>withoutExporter\<close> has no descriptor
  entry and no \<open>exporter\<close>: \<open>validateBinaries\<close> would reject it naming
  \<open>exporter\<close>, and \<open>NewLifecycle\<close> returns a lifecycle with the default descriptor
  all the same, because the branch for an absent descriptor returns before
  \<open>validateBinaries\<close> is called. With a descriptor entry the same archive is
  rejected.
\<close>

theorem NewLifecycle_without_descriptor_skips_binaries:
  "validateBinaries withoutExporter = Some (BinaryNotFound ''exporter'')
   \<and> NewLifecycle tomlDecode withoutExporter
       = Inr \<lparr>descriptor = DefaultLifecycleDescriptor, LBlob = withoutExporter\<rparr>
   \<and> NewLifecycle (\<lambda>buf. Inr DefaultLifecycleDescriptor) describedWithoutExporter
       = Inl (Wrap (BinaryNotFound ''exporter'') ''validating binaries'')"
  by (simp add: NewLifecycle_def ReadTarEntry_def validateBinaries_def withoutExporter_def describedWithoutExporter_def
      fileHeader_def lifecycleBinaries_def Clean_def pathMatches_def)

section \<open>Properties of the layer composer: the version pivot\<close>


















section \<open>Properties of Save\<close>

subsection \<open>A completed Save, stage by stage\<close>

lemma saveFinish_Ok:
  "saveFinish x w b ops = (b', ops', Ok u) \<Longrightarrow>
   b' = b \<and> ops' = ops @ labelOp x w b @ [SetWorkingDir layersDir, Commit]
   \<and> succeeded (jsonMarshal w (metadata b))"
  by (auto simp: saveFinish_def imageCall_def labelOp_def succeeded_def split: sum.splits option.splits)

lemma saveStack_Ok:
  "saveStack x w b tmpDir ops = (b', ops', Ok u) \<Longrightarrow>
   b' = b \<and> ops' = ops @ layerOp (stackLayer w b tmpDir) @ labelOp x w b @ [SetWorkingDir layersDir, Commit]
   \<and> succeeded (jsonMarshal w (metadata b)) \<and> succeeded (stackLayer w b tmpDir)"
  by (auto simp: saveStack_def imageCall_def layerOp_def succeeded_def split: sum.splits option.splits prod.splits
      dest!: saveFinish_Ok)

lemma saveOrder_Ok:
  "saveOrder x w b tmpDir ops = (b', ops', Ok u) \<Longrightarrow>
   b' = b \<and> ops' = ops @ (if replaceOrder b then layerOp (orderLayer w b tmpDir) else [])
            @ layerOp (stackLayer w b tmpDir) @ labelOp x w b @ [SetWorkingDir layersDir, Commit]
   \<and> succeeded (jsonMarshal w (metadata b)) \<and> succeeded (stackLayer w b tmpDir)
   \<and> (if replaceOrder b then succeeded (orderLayer w b tmpDir) else True)"
  by (auto simp: saveOrder_def imageCall_def layerOp_def succeeded_def split: sum.splits option.splits prod.splits if_splits
      dest!: saveStack_Ok)

lemma addBuildpackLayers_Ok:
  "addBuildpackLayers x w b tmpDir bps ops = (ops', Ok u) \<Longrightarrow>
   ops' = ops @ concat (map (\<lambda>bp. buildpackOp (buildpackLayer x w b tmpDir bp)) bps)
   \<and> list_all (\<lambda>bp. case buildpackLayer x w b tmpDir bp of Ok made \<Rightarrow> True | Err err \<Rightarrow> False | Panic \<Rightarrow> False) bps"
proof (induction bps arbitrary: ops)
  case Nil
  then show ?case by simp
next
  case (Cons bp bps)
  from Cons.prems obtain layerTar made where
    made: "buildpackLayer x w b tmpDir bp = Ok (layerTar, made)"
    and rest: "addBuildpackLayers x w b tmpDir bps (ops @ [AddLayer layerTar made]) = (ops', Ok u)"
    by (auto simp: imageCall_def split: result.splits prod.splits option.splits)
  from Cons.IH [OF rest] made show ?case
    by (simp add: buildpackOp_def)
qed

lemma saveBuildpacks_Ok:
  "saveBuildpacks x w b tmpDir ops = (b', ops', Ok u) \<Longrightarrow>
   b' = b \<and> ops' = ops @ laterOps x w b tmpDir \<and> laterMade x w b tmpDir"
proof -
  assume a: "saveBuildpacks x w b tmpDir ops = (b', ops', Ok u)"
  then obtain ops1 where
    loop: "addBuildpackLayers x w b tmpDir (additionalBuildpacks b) ops = (ops1, Ok ())"
    and rest: "saveOrder x w b tmpDir ops1 = (b', ops', Ok u)"
    by (auto simp: saveBuildpacks_def split: prod.splits result.splits)
  from addBuildpackLayers_Ok [OF loop] saveOrder_Ok [OF rest] show ?thesis
    by (simp add: laterOps_def laterMade_def)
qed

lemma saveLifecycle_Ok:
  "saveLifecycle x w b tmpDir ops = (b', ops', Ok u) \<Longrightarrow>
   b' = withDescriptor b
   \<and> ops' = ops @ (case lifecycle b of None \<Rightarrow> [] | Some l \<Rightarrow> layerOp (lifecycleLayer w l tmpDir))
            @ laterOps x w b' tmpDir
   \<and> (case lifecycle b of None \<Rightarrow> True | Some l \<Rightarrow> succeeded (lifecycleLayer w l tmpDir))
   \<and> laterMade x w b' tmpDir"
  by (auto simp: saveLifecycle_def withDescriptor_def imageCall_def layerOp_def Let_def succeeded_def
      split: sum.splits option.splits prod.splits dest!: saveBuildpacks_Ok)

lemma withDescriptor_fields [simp]:
  "lifecycle (withDescriptor b) = lifecycle b"
  "env (withDescriptor b) = env b"
  "UID (withDescriptor b) = UID b"
  "GID (withDescriptor b) = GID b"
  "order (withDescriptor b) = order b"
  "replaceOrder (withDescriptor b) = replaceOrder b"
  "additionalBuildpacks (withDescriptor b) = additionalBuildpacks b"
  by (simp_all add: withDescriptor_def split: option.splits)

lemma defaultDirsLayer_cong:
  "UID b' = UID b \<Longrightarrow> GID b' = GID b \<Longrightarrow> defaultDirsLayer w b' tmpDir = defaultDirsLayer w b tmpDir"
proof -
  assume "UID b' = UID b" and "GID b' = GID b"
  then have eq: "defaultDirs b' (Now w) = defaultDirs b (Now w)"
    by (simp add: defaultDirs_def packOwnedDir_def rootOwnedDir_def)
  show ?thesis
    unfolding defaultDirsLayer_def eq ..
qed

lemma saveEnv_Ok:
  "saveEnv x w b tmpDir ops = (b', ops', Ok u) \<Longrightarrow>
   b' = withDescriptor b
   \<and> ops' = ops @ layerOp (envLayer w tmpDir (env b))
            @ (case lifecycle b of None \<Rightarrow> [] | Some l \<Rightarrow> layerOp (lifecycleLayer w l tmpDir))
            @ laterOps x w b' tmpDir
   \<and> succeeded (envLayer w tmpDir (env b))
   \<and> (case lifecycle b of None \<Rightarrow> True | Some l \<Rightarrow> succeeded (lifecycleLayer w l tmpDir))
   \<and> laterMade x w b' tmpDir"
  by (auto simp: saveEnv_def imageCall_def layerOp_def succeeded_def
      split: sum.splits option.splits prod.splits dest!: saveLifecycle_Ok)

lemma saveDirs_Ok:
  "saveDirs x w b tmpDir ops = (b', ops', Ok u) \<Longrightarrow>
   b' = withDescriptor b \<and> ops' = ops @ savedOps x w b' tmpDir \<and> allMade x w b' tmpDir"
proof -
  assume a: "saveDirs x w b tmpDir ops = (b', ops', Ok u)"
  then obtain dirsTar made where
    dirs: "defaultDirsLayer w b tmpDir = Inr (dirsTar, made)"
    and rest: "saveEnv x w b tmpDir (ops @ [AddLayer dirsTar made]) = (b', ops', Ok u)"
    by (auto simp: saveDirs_def imageCall_def split: sum.splits option.splits prod.splits)
  from saveEnv_Ok [OF rest] have b': "b' = withDescriptor b" by simp
  have same: "defaultDirsLayer w b' tmpDir = defaultDirsLayer w b tmpDir"
    unfolding b' by (rule defaultDirsLayer_cong) simp_all
  from saveEnv_Ok [OF rest] dirs same show ?thesis
    by (simp add: savedOps_def allMade_def layerOp_def succeeded_def b')
qed

lemma Save_Ok:
  "Save x w b = (b', ops, Ok u) \<Longrightarrow>
   b' = savedBuilder x b
   \<and> (\<exists>tmpDir. TempDir w = Inr tmpDir \<and> ops = savedOps x w b' tmpDir \<and> allMade x w b' tmpDir)
   \<and> snd (processOrder (Buildpacks (metadata b)) (order b)) = None
   \<and> validateBuildpacks (StackID b) (additionalBuildpacks b) = None"
proof -
  assume a: "Save x w b = (b', ops, Ok u)"
  obtain resolved r1 where po: "processOrder (Buildpacks (metadata b)) (order b) = (resolved, r1)"
    by (cases "processOrder (Buildpacks (metadata b)) (order b)")
  define b1 where "b1 = b\<lparr>order := resolved, metadata := (metadata b)\<lparr>Groups := ToV1Order x resolved\<rparr>\<rparr>"
  obtain md r2 where pm: "processMetadata x (metadata b1) = (md, r2)"
    by (cases "processMetadata x (metadata b1)")
  define b2 where "b2 = b1\<lparr>metadata := md\<rparr>"
  from a po pm have r1: "r1 = None" and r2: "r2 = None"
    and v: "validateBuildpacks (StackID b2) (additionalBuildpacks b2) = None"
    by (auto simp: Save_def Let_def b1_def b2_def split: option.splits)
  from a po pm r1 r2 v obtain tmpDir where t: "TempDir w = Inr tmpDir"
    and rest: "saveDirs x w b2 tmpDir [] = (b', ops, Ok u)"
    by (auto simp: Save_def Let_def b1_def b2_def split: sum.splits)
  have sb: "savedBuilder x b = withDescriptor b2"
    using po pm by (simp add: savedBuilder_def Let_def b1_def b2_def)
  from saveDirs_Ok [OF rest] have e1: "b' = withDescriptor b2"
    and e2: "ops = savedOps x w b' tmpDir" and e3: "allMade x w b' tmpDir"
    by blast+
  have "b' = savedBuilder x b"
    using e1 sb by simp
  moreover have "\<exists>tmpDir. TempDir w = Inr tmpDir \<and> ops = savedOps x w b' tmpDir \<and> allMade x w b' tmpDir"
    using t e2 e3 by blast
  moreover have "snd (processOrder (Buildpacks (metadata b)) (order b)) = None"
    using po r1 by simp
  moreover have "validateBuildpacks (StackID b) (additionalBuildpacks b) = None"
    using v by (simp add: b1_def b2_def)
  ultimately show ?thesis by blast
qed

subsection \<open>The sequence of the operations on the image\<close>

lemma inSequence_stop: "out \<noteq> Ok () \<Longrightarrow> inSequence w ops ops out E"
  unfolding inSequence_def by (rule exI [of _ "[]"]) simp

lemma inSequence_fail:
  "out \<noteq> Ok () \<Longrightarrow> op \<noteq> Commit \<Longrightarrow> inSequence w ops (ops @ [op]) out (opName op # E)"
  unfolding inSequence_def by (rule exI [of _ "[op]"]) simp

lemma inSequence_step:
  assumes "op \<noteq> Commit" and "inSequence w (ops @ [op]) ops' out E"
  shows "inSequence w ops ops' out (opName op # E)"
proof -
  from assms(2) obtain new where new: "ops' = (ops @ [op]) @ new"
    and pre: "prefix (map opName new) E"
    and ok: "out = Ok () \<longrightarrow> map opName new = E"
    and commit: "Commit \<in> set new \<longrightarrow> map opName new = E
            \<and> (\<exists>before. ops' = before @ [Commit]
                  \<and> out = (case imageFails w before Commit of None \<Rightarrow> Ok () | Some err \<Rightarrow> Err err))"
    unfolding inSequence_def by (elim exE conjE)
  show ?thesis
    unfolding inSequence_def
  proof (rule exI [of _ "op # new"], intro conjI impI)
    show "ops' = ops @ op # new"
      using new by simp
    show "prefix (map opName (op # new)) (opName op # E)"
      using pre by simp
    show "map opName (op # new) = opName op # E" if "out = Ok ()"
      using ok that by simp
    assume "Commit \<in> set (op # new)"
    then have "Commit = op \<or> Commit \<in> set new"
      by simp
    with assms(1) have last: "Commit \<in> set new"
      by blast
    from commit last have both: "map opName new = E
            \<and> (\<exists>before. ops' = before @ [Commit]
                  \<and> out = (case imageFails w before Commit of None \<Rightarrow> Ok () | Some err \<Rightarrow> Err err))"
      by (rule mp)
    show "map opName (op # new) = opName op # E"
      using both [THEN conjunct1] by simp
    show "\<exists>before. ops' = before @ [Commit]
        \<and> out = (case imageFails w before Commit of None \<Rightarrow> Ok () | Some err \<Rightarrow> Err err)"
      using both by (rule conjunct2)
  qed
qed

lemma inSequence_commit:
  "inSequence w ops (ops @ [Commit])
     (case imageFails w ops Commit of None \<Rightarrow> Ok () | Some err \<Rightarrow> Err err) [CommitImage]"
  unfolding inSequence_def by (rule exI [of _ "[Commit]"]) auto

lemma layer_stage:
  assumes run: "(case made of
                   Inl err \<Rightarrow> (b, ops, Err err)
                 | Inr (path, f) \<Rightarrow>
                     (case imageCall w ops (AddLayer path f) of
                        (ops1, Some err) \<Rightarrow> (b, ops1, Err (Wrap err msg))
                      | (ops1, None) \<Rightarrow> nxt ops1)) = (b', ops', out)"
    and name: "\<And>path f. made = Inr (path, f) \<Longrightarrow> path = P"
    and rest: "\<And>ops1. nxt ops1 = (b', ops', out) \<Longrightarrow> inSequence w ops1 ops' out E"
  shows "inSequence w ops ops' out (LayerAt P # E)"
proof (cases made)
  case (Inl err)
  with run show ?thesis by (auto intro: inSequence_stop)
next
  case (Inr pf)
  obtain path f where pf: "pf = (path, f)" by (cases pf)
  have P: "path = P" using name Inr pf by simp
  show ?thesis
  proof (cases "imageFails w ops (AddLayer path f)")
    case None
    with run Inr pf have "nxt (ops @ [AddLayer path f]) = (b', ops', out)"
      by (simp add: imageCall_def)
    from rest [OF this] have "inSequence w (ops @ [AddLayer path f]) ops' out E" .
    then have "inSequence w ops ops' out (opName (AddLayer path f) # E)"
      by (intro inSequence_step) simp_all
    then show ?thesis by (simp add: P)
  next
    case (Some err)
    with run Inr pf have ops': "ops' = ops @ [AddLayer path f]" and out: "out = Err (Wrap err msg)"
      by (simp_all add: imageCall_def)
    have "out \<noteq> Ok ()" by (simp add: out)
    then have "inSequence w ops (ops @ [AddLayer path f]) out (opName (AddLayer path f) # E)"
      by (rule inSequence_fail) simp
    then show ?thesis by (simp add: P ops')
  qed
qed

lemma saveFinish_seq:
  assumes "saveFinish x w b ops = (b', ops', out)"
  shows "inSequence w ops ops' out [LabelNamed (MetadataLabel x), WorkingDirAt layersDir, CommitImage]"
proof (cases "jsonMarshal w (metadata b)")
  case (Inl err)
  with assms show ?thesis by (auto simp: saveFinish_def intro: inSequence_stop)
next
  case (Inr label)
  let ?l = "SetLabel (MetadataLabel x) label" and ?d = "SetWorkingDir layersDir"
  show ?thesis
  proof (cases "imageFails w ops ?l")
    case (Some err)
    with assms Inr have "ops' = ops @ [?l]" and "out \<noteq> Ok ()"
      by (auto simp: saveFinish_def imageCall_def)
    then show ?thesis using inSequence_fail [of out ?l w ops] by simp
  next
    case None
    note l = None
    show ?thesis
    proof (cases "imageFails w (ops @ [?l]) ?d")
      case (Some err)
      with assms Inr l have "ops' = (ops @ [?l]) @ [?d]" and "out \<noteq> Ok ()"
        by (auto simp: saveFinish_def imageCall_def)
      then have "inSequence w (ops @ [?l]) ops' out [WorkingDirAt layersDir, CommitImage]"
        using inSequence_fail [of out ?d w "ops @ [?l]"] by simp
      then show ?thesis using inSequence_step [of ?l w ops] by simp
    next
      case None
      with assms Inr l have "ops' = ((ops @ [?l]) @ [?d]) @ [Commit]"
        and "out = (case imageFails w ((ops @ [?l]) @ [?d]) Commit of None \<Rightarrow> Ok () | Some err \<Rightarrow> Err err)"
        by (auto simp: saveFinish_def imageCall_def split: option.splits)
      then have "inSequence w ((ops @ [?l]) @ [?d]) ops' out [CommitImage]"
        using inSequence_commit [of w "(ops @ [?l]) @ [?d]"] by simp
      then have "inSequence w (ops @ [?l]) ops' out [WorkingDirAt layersDir, CommitImage]"
        using inSequence_step [of ?d w "ops @ [?l]"] by simp
      then show ?thesis using inSequence_step [of ?l w ops] by simp
    qed
  qed
qed

lemma stackLayer_name: "stackLayer w b tmpDir = Inr (path, f) \<Longrightarrow> path = Join [tmpDir, ''stack.tar'']"
  by (auto simp: stackLayer_def Let_def split: sum.splits option.splits)

lemma orderLayer_name: "orderLayer w b tmpDir = Inr (path, f) \<Longrightarrow> path = Join [tmpDir, ''order.tar'']"
  by (auto simp: orderLayer_def Let_def split: sum.splits option.splits)

lemma lifecycleLayer_name: "lifecycleLayer w l tmpDir = Inr (path, f) \<Longrightarrow> path = Join [tmpDir, ''lifecycle.tar'']"
  by (auto simp: lifecycleLayer_def Let_def split: sum.splits option.splits)

lemma envLayer_name: "envLayer w tmpDir e = Inr (path, f) \<Longrightarrow> path = Join [tmpDir, ''env.tar'']"
  by (auto simp: envLayer_def Let_def split: sum.splits option.splits)

lemma defaultDirsLayer_name: "defaultDirsLayer w b tmpDir = Inr (path, f) \<Longrightarrow> path = Join [tmpDir, ''dirs.tar'']"
  by (auto simp: defaultDirsLayer_def Let_def split: sum.splits option.splits)

lemma buildpackFiles_name:
  "buildpackFiles x w b tmpDir bp = Ok (path, base, tw) \<Longrightarrow>
   path = Join [tmpDir, EscapedID x bp @ ''.'' @ Version (Info bp) @ ''.tar'']"
  unfolding buildpackFiles_def Let_def
  by (simp split: sum.splits option.splits result.splits)

lemma buildpackLayer_name:
  "buildpackLayer x w b tmpDir bp = Ok (path, f) \<Longrightarrow>
   path = Join [tmpDir, EscapedID x bp @ ''.'' @ Version (Info bp) @ ''.tar'']"
  unfolding buildpackLayer_def
  by (auto split: result.splits sum.splits if_splits dest: buildpackFiles_name)

lemma saveStack_seq:
  assumes "saveStack x w b tmpDir ops = (b', ops', out)"
  shows "inSequence w ops ops' out (LayerAt (Join [tmpDir, ''stack.tar'']) # finishNames x)"
proof (rule layer_stage)
  show "(case stackLayer w b tmpDir of
           Inl err \<Rightarrow> (b, ops, Err err)
         | Inr (path, f) \<Rightarrow>
             (case imageCall w ops (AddLayer path f) of
                (ops1, Some err) \<Rightarrow> (b, ops1, Err (Wrap err ''adding stack.tar layer''))
              | (ops1, None) \<Rightarrow> saveFinish x w b ops1)) = (b', ops', out)"
    using assms by (simp add: saveStack_def)
  show "\<And>path f. stackLayer w b tmpDir = Inr (path, f) \<Longrightarrow> path = Join [tmpDir, ''stack.tar'']"
    by (rule stackLayer_name)
  show "\<And>ops1. saveFinish x w b ops1 = (b', ops', out) \<Longrightarrow> inSequence w ops1 ops' out (finishNames x)"
    unfolding finishNames_def by (rule saveFinish_seq)
qed

lemma saveOrder_seq:
  assumes "saveOrder x w b tmpDir ops = (b', ops', out)"
  shows "inSequence w ops ops' out (orderNames x b tmpDir)"
proof (cases "replaceOrder b")
  case False
  with assms show ?thesis
    by (simp add: saveOrder_def orderNames_def saveStack_seq)
next
  case True
  have "inSequence w ops ops' out
      (LayerAt (Join [tmpDir, ''order.tar'']) # LayerAt (Join [tmpDir, ''stack.tar'']) # finishNames x)"
  proof (rule layer_stage)
    show "(case orderLayer w b tmpDir of
             Inl err \<Rightarrow> (b, ops, Err err)
           | Inr (path, f) \<Rightarrow>
               (case imageCall w ops (AddLayer path f) of
                  (ops1, Some err) \<Rightarrow> (b, ops1, Err (Wrap err ''adding order.tar layer''))
                | (ops1, None) \<Rightarrow> saveStack x w b tmpDir ops1)) = (b', ops', out)"
      using assms True by (simp add: saveOrder_def)
    show "\<And>path f. orderLayer w b tmpDir = Inr (path, f) \<Longrightarrow> path = Join [tmpDir, ''order.tar'']"
      by (rule orderLayer_name)
    show "\<And>ops1. saveStack x w b tmpDir ops1 = (b', ops', out) \<Longrightarrow>
        inSequence w ops1 ops' out (LayerAt (Join [tmpDir, ''stack.tar'']) # finishNames x)"
      by (rule saveStack_seq)
  qed
  with True show ?thesis by (simp add: orderNames_def)
qed

lemma addBuildpackLayers_seq:
  assumes rest: "\<And>ops1. nxt ops1 = (b', ops', out) \<Longrightarrow> inSequence w ops1 ops' out E"
  shows "(case addBuildpackLayers x w b tmpDir bps ops of
            (ops1, Panic) \<Rightarrow> (b, ops1, Panic)
          | (ops1, Err err) \<Rightarrow> (b, ops1, Err err)
          | (ops1, Ok u) \<Rightarrow> nxt ops1) = (b', ops', out) \<Longrightarrow>
        inSequence w ops ops' out (buildpackNames x tmpDir bps @ E)"
proof (induction bps arbitrary: ops)
  case Nil
  then show ?case by (simp add: buildpackNames_def rest)
next
  case (Cons bp bps)
  show ?case
  proof (cases "buildpackLayer x w b tmpDir bp")
    case Panic
    with Cons.prems have "ops' = ops" and "out \<noteq> Ok ()" by auto
    then show ?thesis by (simp add: inSequence_stop)
  next
    case (Err err)
    with Cons.prems have "ops' = ops" and "out \<noteq> Ok ()" by auto
    then show ?thesis by (simp add: inSequence_stop)
  next
    case (Ok pf)
    obtain path f where pf: "pf = (path, f)" by (cases pf)
    have name: "path = Join [tmpDir, EscapedID x bp @ ''.'' @ Version (Info bp) @ ''.tar'']"
      using Ok pf by (intro buildpackLayer_name [of x w b tmpDir bp path f]) simp
    have "inSequence w ops ops' out (opName (AddLayer path f) # buildpackNames x tmpDir bps @ E)"
    proof (cases "imageFails w ops (AddLayer path f)")
      case (Some err)
      with Cons.prems Ok pf have ops': "ops' = ops @ [AddLayer path f]" and "out \<noteq> Ok ()"
        by (auto simp: imageCall_def)
      then have "inSequence w ops (ops @ [AddLayer path f]) out
          (opName (AddLayer path f) # buildpackNames x tmpDir bps @ E)"
        by (intro inSequence_fail) simp_all
      then show ?thesis by (simp add: ops')
    next
      case None
      with Cons.prems Ok pf have
        "(case addBuildpackLayers x w b tmpDir bps (ops @ [AddLayer path f]) of
            (ops1, Panic) \<Rightarrow> (b, ops1, Panic)
          | (ops1, Err err) \<Rightarrow> (b, ops1, Err err)
          | (ops1, Ok u) \<Rightarrow> nxt ops1) = (b', ops', out)"
        by (simp add: imageCall_def)
      from Cons.IH [OF this] show ?thesis
        by (intro inSequence_step) simp_all
    qed
    then have "inSequence w ops ops' out (LayerAt path # buildpackNames x tmpDir bps @ E)"
      by simp
    then show ?thesis
      unfolding name buildpackNames_def by simp
  qed
qed

lemma saveBuildpacks_seq:
  assumes "saveBuildpacks x w b tmpDir ops = (b', ops', out)"
  shows "inSequence w ops ops' out (buildpackNames x tmpDir (additionalBuildpacks b) @ orderNames x b tmpDir)"
  using assms unfolding saveBuildpacks_def
  by (rule addBuildpackLayers_seq [rotated]) (rule saveOrder_seq)

lemma saveLifecycle_seq:
  assumes "saveLifecycle x w b tmpDir ops = (b', ops', out)"
  shows "inSequence w ops ops' out
     ((case lifecycle b of None \<Rightarrow> [] | Some l \<Rightarrow> [LayerAt (Join [tmpDir, ''lifecycle.tar''])])
      @ buildpackNames x tmpDir (additionalBuildpacks b) @ orderNames x b tmpDir)"
proof (cases "lifecycle b")
  case None
  with assms show ?thesis
    by (simp add: saveLifecycle_def saveBuildpacks_seq)
next
  case (Some l)
  define bU where "bU = b\<lparr>metadata := (metadata b)
                       \<lparr>Lifecycle := \<lparr>LifecycleVersion = LifecycleVersion (DInfo (descriptor l)),
                                      MAPI = API (descriptor l)\<rparr>\<rparr>\<rparr>"
  have same: "additionalBuildpacks bU = additionalBuildpacks b" "orderNames x bU tmpDir = orderNames x b tmpDir"
    by (simp_all add: bU_def orderNames_def)
  have "inSequence w ops ops' out
      (LayerAt (Join [tmpDir, ''lifecycle.tar''])
       # buildpackNames x tmpDir (additionalBuildpacks b) @ orderNames x b tmpDir)"
  proof (rule layer_stage)
    show "(case lifecycleLayer w l tmpDir of
             Inl err \<Rightarrow> (bU, ops, Err err)
           | Inr (path, f) \<Rightarrow>
               (case imageCall w ops (AddLayer path f) of
                  (ops1, Some err) \<Rightarrow> (bU, ops1, Err (Wrap err ''adding lifecycle layer''))
                | (ops1, None) \<Rightarrow> saveBuildpacks x w bU tmpDir ops1)) = (b', ops', out)"
      unfolding bU_def using assms Some by (simp add: saveLifecycle_def Let_def)
    show "\<And>path f. lifecycleLayer w l tmpDir = Inr (path, f) \<Longrightarrow> path = Join [tmpDir, ''lifecycle.tar'']"
      by (rule lifecycleLayer_name)
    show "\<And>ops1. saveBuildpacks x w bU tmpDir ops1 = (b', ops', out) \<Longrightarrow>
        inSequence w ops1 ops' out (buildpackNames x tmpDir (additionalBuildpacks b) @ orderNames x b tmpDir)"
      using saveBuildpacks_seq [of x w bU tmpDir _ b' ops' out] by (simp add: same)
  qed
  with Some show ?thesis by simp
qed

lemma saveEnv_seq:
  assumes "saveEnv x w b tmpDir ops = (b', ops', out)"
  shows "inSequence w ops ops' out
     (LayerAt (Join [tmpDir, ''env.tar''])
      # (case lifecycle b of None \<Rightarrow> [] | Some l \<Rightarrow> [LayerAt (Join [tmpDir, ''lifecycle.tar''])])
      @ buildpackNames x tmpDir (additionalBuildpacks b) @ orderNames x b tmpDir)"
proof (rule layer_stage)
  show "(case envLayer w tmpDir (env b) of
           Inl err \<Rightarrow> (b, ops, Err err)
         | Inr (path, f) \<Rightarrow>
             (case imageCall w ops (AddLayer path f) of
                (ops1, Some err) \<Rightarrow> (b, ops1, Err (Wrap err ''adding env layer''))
              | (ops1, None) \<Rightarrow> saveLifecycle x w b tmpDir ops1)) = (b', ops', out)"
    using assms by (simp add: saveEnv_def)
  show "\<And>path f. envLayer w tmpDir (env b) = Inr (path, f) \<Longrightarrow> path = Join [tmpDir, ''env.tar'']"
    by (rule envLayer_name)
  show "\<And>ops1. saveLifecycle x w b tmpDir ops1 = (b', ops', out) \<Longrightarrow>
      inSequence w ops1 ops' out
       ((case lifecycle b of None \<Rightarrow> [] | Some l \<Rightarrow> [LayerAt (Join [tmpDir, ''lifecycle.tar''])])
        @ buildpackNames x tmpDir (additionalBuildpacks b) @ orderNames x b tmpDir)"
    by (rule saveLifecycle_seq)
qed

lemma saveDirs_seq:
  assumes "saveDirs x w b tmpDir ops = (b', ops', out)"
  shows "inSequence w ops ops' out (expectedOps x b tmpDir)"
proof -
  have "inSequence w ops ops' out
     (LayerAt (Join [tmpDir, ''dirs.tar''])
      # LayerAt (Join [tmpDir, ''env.tar''])
      # (case lifecycle b of None \<Rightarrow> [] | Some l \<Rightarrow> [LayerAt (Join [tmpDir, ''lifecycle.tar''])])
      @ buildpackNames x tmpDir (additionalBuildpacks b) @ orderNames x b tmpDir)"
  proof (rule layer_stage)
    show "(case defaultDirsLayer w b tmpDir of
             Inl err \<Rightarrow> (b, ops, Err err)
           | Inr (path, f) \<Rightarrow>
               (case imageCall w ops (AddLayer path f) of
                  (ops1, Some err) \<Rightarrow> (b, ops1, Err (Wrap err ''adding default dirs layer''))
                | (ops1, None) \<Rightarrow> saveEnv x w b tmpDir ops1)) = (b', ops', out)"
      using assms by (simp add: saveDirs_def)
    show "\<And>path f. defaultDirsLayer w b tmpDir = Inr (path, f) \<Longrightarrow> path = Join [tmpDir, ''dirs.tar'']"
      by (rule defaultDirsLayer_name)
    show "\<And>ops1. saveEnv x w b tmpDir ops1 = (b', ops', out) \<Longrightarrow>
        inSequence w ops1 ops' out
         (LayerAt (Join [tmpDir, ''env.tar''])
          # (case lifecycle b of None \<Rightarrow> [] | Some l \<Rightarrow> [LayerAt (Join [tmpDir, ''lifecycle.tar''])])
          @ buildpackNames x tmpDir (additionalBuildpacks b) @ orderNames x b tmpDir)"
      by (rule saveEnv_seq)
  qed
  then show ?thesis by (simp add: expectedOps_def)
qed

text \<open>Where a panic can come from.\<close>

lemma saveFinish_returns: "saveFinish x w b ops = (b', ops', out) \<Longrightarrow> out \<noteq> Panic"
  by (auto simp: saveFinish_def imageCall_def split: sum.splits option.splits)

lemma saveStack_returns: "saveStack x w b tmpDir ops = (b', ops', out) \<Longrightarrow> out \<noteq> Panic"
  by (auto simp: saveStack_def imageCall_def split: sum.splits option.splits dest: saveFinish_returns)

lemma saveOrder_returns: "saveOrder x w b tmpDir ops = (b', ops', out) \<Longrightarrow> out \<noteq> Panic"
  by (auto simp: saveOrder_def imageCall_def split: sum.splits option.splits if_splits dest: saveStack_returns)

lemma embedBuildpackTar_Panic:
  "embedBuildpackTar w b tw bp baseTarDir = Panic \<longleftrightarrow> (\<exists>err. Blob bp = Inl err)"
  by (auto simp: embedBuildpackTar_def split: sum.splits option.splits)

lemma buildpackFiles_Panic:
  "buildpackFiles x w b dest bp = Panic \<Longrightarrow> \<exists>err. Blob bp = Inl err"
  unfolding buildpackFiles_def Let_def
  by (simp add: embedBuildpackTar_Panic split: option.splits sum.splits result.splits)

lemma buildpackLayer_Panic:
  "buildpackLayer x w b dest bp = Panic \<Longrightarrow> \<exists>err. Blob bp = Inl err"
  unfolding buildpackLayer_def
  by (auto split: result.splits sum.splits if_splits dest: buildpackFiles_Panic)

lemma addBuildpackLayers_Panic:
  "addBuildpackLayers x w b tmpDir bps ops = (ops', Panic) \<Longrightarrow> \<exists>bp\<in>set bps. \<exists>err. Blob bp = Inl err"
proof (induction bps arbitrary: ops)
  case Nil
  then show ?case by simp
next
  case (Cons bp bps)
  show ?case
  proof (cases "buildpackLayer x w b tmpDir bp")
    case Panic
    then show ?thesis using buildpackLayer_Panic [of x w b tmpDir bp] by simp
  next
    case (Err err)
    with Cons.prems show ?thesis by simp
  next
    case (Ok pf)
    obtain path f where pf: "pf = (path, f)" by (cases pf)
    from Cons.prems Ok pf have
      "addBuildpackLayers x w b tmpDir bps (ops @ [AddLayer path f]) = (ops', Panic)"
      by (cases "imageFails w ops (AddLayer path f)") (simp_all add: imageCall_def)
    from Cons.IH [OF this] show ?thesis by simp
  qed
qed

lemma saveBuildpacks_Panic:
  "saveBuildpacks x w b tmpDir ops = (b', ops', Panic) \<Longrightarrow>
   \<exists>bp\<in>set (additionalBuildpacks b). \<exists>err. Blob bp = Inl err"
  unfolding saveBuildpacks_def
  by (auto split: prod.splits result.splits dest: addBuildpackLayers_Panic saveOrder_returns)

lemma saveLifecycle_Panic:
  "saveLifecycle x w b tmpDir ops = (b', ops', Panic) \<Longrightarrow>
   \<exists>bp\<in>set (additionalBuildpacks b). \<exists>err. Blob bp = Inl err"
  unfolding saveLifecycle_def Let_def imageCall_def
  by (auto split: option.splits sum.splits prod.splits dest!: saveBuildpacks_Panic)

lemma saveEnv_Panic:
  "saveEnv x w b tmpDir ops = (b', ops', Panic) \<Longrightarrow>
   \<exists>bp\<in>set (additionalBuildpacks b). \<exists>err. Blob bp = Inl err"
  unfolding saveEnv_def imageCall_def
  by (auto split: option.splits sum.splits prod.splits dest!: saveLifecycle_Panic)

lemma saveDirs_Panic:
  "saveDirs x w b tmpDir ops = (b', ops', Panic) \<Longrightarrow>
   \<exists>bp\<in>set (additionalBuildpacks b). \<exists>err. Blob bp = Inl err"
  unfolding saveDirs_def imageCall_def
  by (auto split: option.splits sum.splits prod.splits dest!: saveEnv_Panic)

text \<open>
  What holds of claim C6 for every call of \<open>Save\<close>: the operations on the
  image are, by their names, a prefix of the expected sequence, the whole of it
  when the call ends well; the commit, when it is invoked, is the last operation,
  comes after all the others, and its answer is the answer of \<open>Save\<close>; an
  earlier failure leaves the commit out. A call that ends in a panic has a
  pending buildpack whose blob does not open.
\<close>

lemma Save_in_sequence:
  assumes "Save x w b = (b', ops, out)"
  shows "(ops = [] \<and> out \<noteq> Ok ())
       \<or> (\<exists>tmpDir. TempDir w = Inr tmpDir \<and> inSequence w [] ops out (expectedOps x b tmpDir))"
proof -
  obtain resolved r1 where po: "processOrder (Buildpacks (metadata b)) (order b) = (resolved, r1)"
    by (cases "processOrder (Buildpacks (metadata b)) (order b)")
  define b1 where "b1 = b\<lparr>order := resolved, metadata := (metadata b)\<lparr>Groups := ToV1Order x resolved\<rparr>\<rparr>"
  obtain md r2 where pm: "processMetadata x (metadata b1) = (md, r2)"
    by (cases "processMetadata x (metadata b1)")
  define b2 where "b2 = b1\<lparr>metadata := md\<rparr>"
  have names: "expectedOps x b2 = expectedOps x b"
    by (simp add: fun_eq_iff expectedOps_def orderNames_def b2_def b1_def)
  show ?thesis
  proof (cases "r1 = None \<and> r2 = None \<and> validateBuildpacks (StackID b2) (additionalBuildpacks b2) = None
      \<and> (\<exists>tmpDir. TempDir w = Inr tmpDir)")
    case True
    then obtain tmpDir where t: "TempDir w = Inr tmpDir" by blast
    with True assms po pm have "saveDirs x w b2 tmpDir [] = (b', ops, out)"
      by (simp add: Save_def Let_def b1_def b2_def)
    from saveDirs_seq [OF this] t show ?thesis
      by (simp add: names)
  next
    case False
    with assms po pm have "ops = [] \<and> out \<noteq> Ok ()"
      by (auto simp: Save_def Let_def b1_def b2_def split: option.splits sum.splits)
    then show ?thesis by blast
  qed
qed

lemma Save_Panic:
  assumes "Save x w b = (b', ops, Panic)"
  shows "\<exists>bp\<in>set (additionalBuildpacks b). \<exists>err. Blob bp = Inl err"
proof -
  obtain resolved r1 where po: "processOrder (Buildpacks (metadata b)) (order b) = (resolved, r1)"
    by (cases "processOrder (Buildpacks (metadata b)) (order b)")
  define b1 where "b1 = b\<lparr>order := resolved, metadata := (metadata b)\<lparr>Groups := ToV1Order x resolved\<rparr>\<rparr>"
  obtain md r2 where pm: "processMetadata x (metadata b1) = (md, r2)"
    by (cases "processMetadata x (metadata b1)")
  define b2 where "b2 = b1\<lparr>metadata := md\<rparr>"
  from assms po pm obtain tmpDir where "saveDirs x w b2 tmpDir [] = (b', ops, Panic)"
    by (auto simp: Save_def Let_def b1_def b2_def split: option.splits sum.splits)
  from saveDirs_Panic [OF this] show ?thesis
    by (simp add: b2_def b1_def)
qed

lemma Save_operations:
  assumes "Save x w b = (b', ops, out)"
  shows "(ops = [] \<or> (\<exists>tmpDir. TempDir w = Inr tmpDir \<and> prefix (map opName ops) (expectedOps x b tmpDir)))
       \<and> (out = Ok () \<longrightarrow> (\<exists>tmpDir. TempDir w = Inr tmpDir \<and> map opName ops = expectedOps x b tmpDir))
       \<and> (Commit \<in> set ops \<longrightarrow>
             (\<exists>tmpDir before. TempDir w = Inr tmpDir \<and> map opName ops = expectedOps x b tmpDir
                \<and> ops = before @ [Commit]
                \<and> out = (case imageFails w before Commit of None \<Rightarrow> Ok () | Some err \<Rightarrow> Err err)))
       \<and> (out = Panic \<longrightarrow> (\<exists>bp\<in>set (additionalBuildpacks b). \<exists>err. Blob bp = Inl err))"
proof -
  from Save_in_sequence [OF assms] consider
    (early) "ops = []" "out \<noteq> Ok ()"
    | (staged) tmpDir where "TempDir w = Inr tmpDir" "inSequence w [] ops out (expectedOps x b tmpDir)"
    by blast
  then have seq: "(ops = [] \<or> (\<exists>tmpDir. TempDir w = Inr tmpDir \<and> prefix (map opName ops) (expectedOps x b tmpDir)))
       \<and> (out = Ok () \<longrightarrow> (\<exists>tmpDir. TempDir w = Inr tmpDir \<and> map opName ops = expectedOps x b tmpDir))
       \<and> (Commit \<in> set ops \<longrightarrow>
             (\<exists>tmpDir before. TempDir w = Inr tmpDir \<and> map opName ops = expectedOps x b tmpDir
                \<and> ops = before @ [Commit]
                \<and> out = (case imageFails w before Commit of None \<Rightarrow> Ok () | Some err \<Rightarrow> Err err)))"
  proof cases
    case early
    then show ?thesis by simp
  next
    case staged
    from staged(2) have pre: "prefix (map opName ops) (expectedOps x b tmpDir)"
      and ok: "out = Ok () \<longrightarrow> map opName ops = expectedOps x b tmpDir"
      and commit: "Commit \<in> set ops \<longrightarrow> map opName ops = expectedOps x b tmpDir
            \<and> (\<exists>before. ops = before @ [Commit]
                  \<and> out = (case imageFails w before Commit of None \<Rightarrow> Ok () | Some err \<Rightarrow> Err err))"
      unfolding inSequence_def by simp_all
    from staged(1) pre have 1: "ops = [] \<or> (\<exists>tmpDir. TempDir w = Inr tmpDir \<and> prefix (map opName ops) (expectedOps x b tmpDir))"
      by blast
    from staged(1) ok have 2: "out = Ok () \<longrightarrow> (\<exists>tmpDir. TempDir w = Inr tmpDir \<and> map opName ops = expectedOps x b tmpDir)"
      by blast
    from staged(1) commit have 3: "Commit \<in> set ops \<longrightarrow>
             (\<exists>tmpDir before. TempDir w = Inr tmpDir \<and> map opName ops = expectedOps x b tmpDir
                \<and> ops = before @ [Commit]
                \<and> out = (case imageFails w before Commit of None \<Rightarrow> Ok () | Some err \<Rightarrow> Err err))"
      by blast
    from 1 2 3 show ?thesis by (intro conjI)
  qed
  have "out = Panic \<longrightarrow> (\<exists>bp\<in>set (additionalBuildpacks b). \<exists>err. Blob bp = Inl err)"
    using Save_Panic assms by blast
  with seq show ?thesis by (intro conjI) simp_all
qed

subsection \<open>No recorded lifecycle version\<close>




text \<open>
  The run of \<open>Save\<close> on the fresh builder with the 0.3.0 lifecycle set, in a world
  where nothing fails.
\<close>

lemma saved_legacy: "snd (snd (Save plainExtern quietWorld legacyFresh)) = Ok ()"
  by code_simp

lemma ops_legacy:
  "fst (snd (Save plainExtern quietWorld legacyFresh)) =
     [AddLayer ''/scratch/dirs.tar''
        (TarFile (map WroteHeader (defaultDirs freshBuilder 0))),
      AddLayer ''/scratch/env.tar'' (TarFile []),
      AddLayer ''/scratch/lifecycle.tar''
        (TarFile (WroteHeader (dirHeader ''/lifecycle'' 0)
           # concat (map (\<lambda>binary. [WroteHeader (fileHeader (''/lifecycle/'' @ binary)), WroteData ''#!''])
               [''detector'', ''restorer'', ''analyzer'', ''builder'', ''cacher'', ''launcher'']))),
      AddLayer ''/scratch/a.1.tar''
        (TarFile (embeddedA @ [WroteHeader (latestAlias ''a'' ''/buildpacks/a/1'')])),
      AddLayer ''/scratch/order.tar'' (SingleFileTar ''/buildpacks/order.toml'' ''groups''),
      AddLayer ''/scratch/stack.tar'' (SingleFileTar ''/buildpacks/stack.toml'' ''run-image''),
      SetLabel ''io.buildpacks.builder.metadata'' ''{}'',
      SetWorkingDir ''/layers'', Commit]"
  by code_simp




subsection \<open>The groups of the metadata\<close>

lemma Save_ignores_groups:
  "snd (processOrder (Buildpacks (metadata b)) (order b)) = None \<Longrightarrow>
   Save x w (b\<lparr>metadata := (metadata b)\<lparr>Groups := stale\<rparr>\<rparr>) = Save x w b"
  by (cases "processOrder (Buildpacks (metadata b)) (order b)") (simp add: Save_def)

lemma layerOp_AddLayer: "op \<in> set (layerOp made) \<Longrightarrow> \<exists>path f. op = AddLayer path f"
  by (auto simp: layerOp_def split: sum.splits)

lemma buildpackOp_AddLayer: "op \<in> set (buildpackOp made) \<Longrightarrow> \<exists>path f. op = AddLayer path f"
  by (auto simp: buildpackOp_def split: result.splits)

lemma savedOps_ends:
  "\<exists>layers. savedOps x w b tmpDir = layers @ labelOp x w b @ [SetWorkingDir layersDir, Commit]
     \<and> (\<forall>op\<in>set layers. \<exists>path made. op = AddLayer path made)"
proof -
  let ?layers = "layerOp (defaultDirsLayer w b tmpDir)
     @ layerOp (envLayer w tmpDir (env b))
     @ (case lifecycle b of None \<Rightarrow> [] | Some l \<Rightarrow> layerOp (lifecycleLayer w l tmpDir))
     @ concat (map (\<lambda>bp. buildpackOp (buildpackLayer x w b tmpDir bp)) (additionalBuildpacks b))
     @ (if replaceOrder b then layerOp (orderLayer w b tmpDir) else [])
     @ layerOp (stackLayer w b tmpDir)"
  have "savedOps x w b tmpDir = ?layers @ labelOp x w b @ [SetWorkingDir layersDir, Commit]"
    by (simp add: savedOps_def laterOps_def)
  moreover have "\<forall>op\<in>set ?layers. \<exists>path made. op = AddLayer path made"
    by (auto dest: layerOp_AddLayer buildpackOp_AddLayer split: option.splits if_splits)
  ultimately show ?thesis by blast
qed

text \<open>
  Claim C8. \<open>processMetadata\<close> is a parameter; it is taken to leave the groups
  as they are. On every call of \<open>Save\<close> that completes, the order of the builder
  is the resolved order, the groups of its metadata are made from that order,
  the label is set to the encoding of that metadata after every layer has been
  added and before the working directory and the commit, and the groups the
  metadata held before the call have no part in the result.
\<close>

theorem Save_regenerates_groups:
  assumes kept: "\<forall>md. Groups (fst (processMetadata x md)) = Groups md"
      and saved: "Save x w b = (b', ops, Ok ())"
  shows "order b' = fst (processOrder (Buildpacks (metadata b)) (order b))
       \<and> Groups (metadata b') = ToV1Order x (order b')
       \<and> (\<exists>label layers. jsonMarshal w (metadata b') = Inr label
             \<and> ops = layers @ [SetLabel (MetadataLabel x) label, SetWorkingDir layersDir, Commit]
             \<and> (\<forall>op\<in>set layers. \<exists>path made. op = AddLayer path made))
       \<and> Save x w (b\<lparr>metadata := (metadata b)\<lparr>Groups := stale\<rparr>\<rparr>) = (b', ops, Ok ())"
proof -
  note ok = Save_Ok [OF saved]
  from ok have b': "b' = savedBuilder x b" by blast
  have ord: "order b' = fst (processOrder (Buildpacks (metadata b)) (order b))"
    unfolding b' by (simp add: savedBuilder_def Let_def withDescriptor_def split: option.splits)
  have "Groups (metadata b') = Groups (fst (processMetadata x
      ((metadata b)\<lparr>Groups := ToV1Order x (fst (processOrder (Buildpacks (metadata b)) (order b)))\<rparr>)))"
    unfolding b' by (simp add: savedBuilder_def Let_def withDescriptor_def split: option.splits)
  then have grp: "Groups (metadata b') = ToV1Order x (order b')"
    using kept ord by simp
  from ok obtain tmpDir where ops: "ops = savedOps x w b' tmpDir" and made: "allMade x w b' tmpDir"
    by blast
  from made obtain label where label: "jsonMarshal w (metadata b') = Inr label"
    by (auto simp: allMade_def laterMade_def succeeded_def split: sum.splits)
  from savedOps_ends [of x w b' tmpDir] obtain layers where
    "savedOps x w b' tmpDir = layers @ labelOp x w b' @ [SetWorkingDir layersDir, Commit]"
    and lay: "\<forall>op\<in>set layers. \<exists>path made. op = AddLayer path made"
    by blast
  then have "ops = layers @ [SetLabel (MetadataLabel x) label, SetWorkingDir layersDir, Commit]"
    using ops label by (simp add: labelOp_def)
  with label lay have lab: "\<exists>label layers. jsonMarshal w (metadata b') = Inr label
             \<and> ops = layers @ [SetLabel (MetadataLabel x) label, SetWorkingDir layersDir, Commit]
             \<and> (\<forall>op\<in>set layers. \<exists>path made. op = AddLayer path made)"
    by blast
  have same: "Save x w (b\<lparr>metadata := (metadata b)\<lparr>Groups := stale\<rparr>\<rparr>) = (b', ops, Ok ())"
    using saved ok by (simp add: Save_ignores_groups)
  from ord grp lab same show ?thesis by blast
qed

text \<open>
  Witness for C8: \<open>Save\<close> of \<open>legacyFresh\<close> completes; the order \<open>a\<close> is resolved
  to \<open>a@1\<close>, the groups are made from it, and starting with the groups
  \<open>old@0\<close> left over in the metadata gives the same result.
\<close>

theorem Save_regenerates_groups_witness:
  "order (fst (Save plainExtern quietWorld legacyFresh)) = [\<lparr>Group = [refTo ''a'' ''1'']\<rparr>]
   \<and> Groups (metadata (fst (Save plainExtern quietWorld legacyFresh))) = [\<lparr>Group = [refTo ''a'' ''1'']\<rparr>]
   \<and> Groups (metadata staleLegacy) = [\<lparr>Group = [refTo ''old'' ''0'']\<rparr>]
   \<and> Save plainExtern quietWorld staleLegacy = Save plainExtern quietWorld legacyFresh"
proof -
  let ?s = "Save plainExtern quietWorld legacyFresh"
  have kept: "\<forall>md. Groups (fst (processMetadata plainExtern md)) = Groups md"
    by (simp add: plainExtern_def markLatest_def)
  have saved: "?s = (fst ?s, fst (snd ?s), Ok ())"
    using saved_legacy by (simp add: prod_eq_iff)
  note T = Save_regenerates_groups [OF kept saved, where stale = "[\<lparr>Group = [refTo ''old'' ''0'']\<rparr>]"]
  have resolved: "fst (processOrder (Buildpacks (metadata legacyFresh)) (order legacyFresh))
      = [\<lparr>Group = [refTo ''a'' ''1'']\<rparr>]"
    by code_simp
  have ord: "order (fst ?s) = [\<lparr>Group = [refTo ''a'' ''1'']\<rparr>]"
    using T [THEN conjunct1] resolved by simp
  have grp: "Groups (metadata (fst ?s)) = [\<lparr>Group = [refTo ''a'' ''1'']\<rparr>]"
    using T [THEN conjunct2, THEN conjunct1] ord by (simp add: plainExtern_def markLatest_def)
  have old: "Groups (metadata staleLegacy) = [\<lparr>Group = [refTo ''old'' ''0'']\<rparr>]"
    by (simp add: staleLegacy_def)
  have same: "Save plainExtern quietWorld staleLegacy = ?s"
    using T [THEN conjunct2, THEN conjunct2, THEN conjunct2] saved by (simp add: staleLegacy_def)
  from ord grp old same show ?thesis by blast
qed


subsection \<open>A buildpack blob that does not open\<close>

text \<open>
  Claim C7 fails on the code. Whatever the builder and the buildpack, when the
  blob of the buildpack does not open, \<open>embedBuildpackTar\<close> does not return the
  error: it panics, and so does \<open>buildpackLayer\<close> for the buildpack
  \<open>unreadableA\<close>, whose \<open>Open\<close> fails. No error that wraps the failure and
  carries the identity of the buildpack is returned.
\<close>

theorem embedBuildpackTar_drops_open_error:
  "embedBuildpackTar w b tw (bp\<lparr>Blob := Inl err\<rparr>) baseTarDir = Panic
   \<and> Blob unreadableA = Inl (External ''open failed'')
   \<and> buildpackLayer plainExtern quietWorld withUnreadable ''/scratch'' unreadableA = Panic"
proof -
  have "embedBuildpackTar w b tw (bp\<lparr>Blob := Inl err\<rparr>) baseTarDir = Panic"
    by (simp add: embedBuildpackTar_def)
  moreover have "Blob unreadableA = Inl (External ''open failed'')"
    by (simp add: unreadableA_def)
  moreover have "buildpackLayer plainExtern quietWorld withUnreadable ''/scratch'' unreadableA = Panic"
    by code_simp
  ultimately show ?thesis by blast
qed

text \<open>
  Claim C6 fails on the code at the same place. In a world where nothing else
  fails, \<open>Save\<close> of a builder with the buildpack \<open>unreadableA\<close> pending adds the
  layers of the directories and of the environment and then panics: the stage
  that makes the layer of the buildpack fails, and \<open>Save\<close> does not return its
  error. The commit is not invoked.
\<close>

theorem Save_panics_on_unreadable_blob:
  "snd (snd (Save plainExtern quietWorld withUnreadable)) = Panic
   \<and> map opName (fst (snd (Save plainExtern quietWorld withUnreadable)))
       = [LayerAt ''/scratch/dirs.tar'', LayerAt ''/scratch/env.tar'']"
  by code_simp


section \<open>Properties of the order document\<close>

lemma decodeRef_encodeRef: "decodeRef (encodeRef r) = Some r"
  by (cases r) (simp add: decodeRef_def encodeRef_def decodeString_def decodeBool_def)

lemma decodeAll_map:
  "(\<And>a. g (f a) = Some a) \<Longrightarrow> decodeAll g (map f as) = Some as"
  by (induction as) simp_all

lemma decodeEntry_encodeEntry: "decodeEntry (encodeEntry e) = Some e"
  by (cases e) (simp add: decodeEntry_def encodeEntry_def decodeArray_def decodeAll_map decodeRef_encodeRef)

text \<open>
  Claim C9. Encoding an order as the current document, the entries under the key
  \<open>order\<close>, each with its refs under \<open>group\<close>, each ref with its \<open>id\<close>, its
  \<open>version\<close> and, when set, its \<open>optional\<close> flag, and decoding that document
  gives the order back: the same groups in the same sequence, and in each group
  the same refs with the same ids, versions and flags.
\<close>

theorem order_document_roundtrip: "decodeOrderTOML (encodeOrderTOML ord) = Some ord"
  by (simp add: decodeOrderTOML_def encodeOrderTOML_def decodeArray_def decodeAll_map decodeEntry_encodeEntry)

end
